theory Spec2Isabelle
  imports Complex_Main
begin

section \<open>JSON values and text frames\<close>

text \<open>
  A WebSocket text frame is a \<^typ>\<open>string\<close>.  The router decodes it with the
  JavaScript builtin \<^verbatim>\<open>JSON.parse\<close>, whose result is a JSON value or a thrown
  \<^verbatim>\<open>SyntaxError\<close>.  The builtin is not part of the repository: every function
  below that decodes a frame takes the decoder as its first argument
  \<open>J :: string \<Rightarrow> json option\<close> (\<open>None\<close> is the thrown error), and the general
  theorems hold for every decoder.  JavaScript numbers are modelled by rationals;
  the program only ever compares them with the literals 2, 3 and 4.
\<close>

datatype json =
    JNull
  | JBool bool
  | JNumber rat
  | JString string
  | JArray "json list"
  | JObject "(string \<times> json) list"

subsection \<open>A reference decoder for concrete frames\<close>

text \<open>
  For evaluating the program on concrete frames there is a decoder of a subset of
  the JSON grammar: white space, the three literals, integers without fraction or
  exponent, strings with the single-character escapes, arrays and objects.  A frame
  outside this subset (a fraction, an exponent, a \<^verbatim>\<open>\u\<close> escape) is rejected here
  although \<^verbatim>\<open>JSON.parse\<close> accepts it; no general theorem depends on this decoder.
\<close>

datatype token =
    TLBracket | TRBracket | TLBrace | TRBrace | TComma | TColon
  | TString string | TNumber rat | TTrue | TFalse | TNull

definition is_ws :: "char \<Rightarrow> bool" where
  "is_ws c = (c = CHR '' '' \<or> c = CHR 0x09 \<or> c = CHR 0x0A \<or> c = CHR 0x0D)"

definition is_digit :: "char \<Rightarrow> bool" where
  "is_digit c = (c \<in> set ''0123456789'')"

definition digit_val :: "char \<Rightarrow> nat" where
  "digit_val c = of_char c - 48"

definition unescape :: "char \<Rightarrow> char option" where
  "unescape e =
     (if e = CHR 0x22 then Some (CHR 0x22)
      else if e = CHR 0x5C then Some (CHR 0x5C)
      else if e = CHR ''/'' then Some (CHR ''/'')
      else if e = CHR ''b'' then Some (CHR 0x08)
      else if e = CHR ''f'' then Some (CHR 0x0C)
      else if e = CHR ''n'' then Some (CHR 0x0A)
      else if e = CHR ''r'' then Some (CHR 0x0D)
      else if e = CHR ''t'' then Some (CHR 0x09)
      else None)"

fun lex_string :: "string \<Rightarrow> string \<Rightarrow> (string \<times> string) option" where
  "lex_string [] acc = None"
| "lex_string (c # cs) acc =
     (if c = CHR 0x22 then Some (rev acc, cs)
      else if c = CHR 0x5C then
        (case cs of
           [] \<Rightarrow> None
         | e # cs' \<Rightarrow>
             (case unescape e of
                None \<Rightarrow> None
              | Some d \<Rightarrow> lex_string cs' (d # acc)))
      else if (of_char c :: nat) < 32 then None
      else lex_string cs (c # acc))"

definition lex_nat :: "string \<Rightarrow> (nat \<times> string) option" where
  "lex_nat s =
     (let ds = takeWhile is_digit s; rest = dropWhile is_digit s in
      if ds = [] then None
      else if hd ds = CHR ''0'' \<and> length ds > 1 then None
      else if rest \<noteq> [] \<and> hd rest \<in> set ''.eE'' then None
      else Some (foldl (\<lambda>n d. 10 * n + digit_val d) 0 ds, rest))"

definition lex_number :: "string \<Rightarrow> (rat \<times> string) option" where
  "lex_number s =
     (case s of
        [] \<Rightarrow> None
      | c # cs \<Rightarrow>
          if c = CHR ''-'' then map_option (\<lambda>(n, r). (- of_nat n, r)) (lex_nat cs)
          else map_option (\<lambda>(n, r). (of_nat n, r)) (lex_nat s))"

fun lex :: "nat \<Rightarrow> string \<Rightarrow> token list option" where
  "lex 0 s = None"
| "lex (Suc n) [] = Some []"
| "lex (Suc n) (c # cs) =
     (if is_ws c then lex n cs
      else if c = CHR ''['' then map_option (Cons TLBracket) (lex n cs)
      else if c = CHR '']'' then map_option (Cons TRBracket) (lex n cs)
      else if c = CHR ''{'' then map_option (Cons TLBrace) (lex n cs)
      else if c = CHR ''}'' then map_option (Cons TRBrace) (lex n cs)
      else if c = CHR '','' then map_option (Cons TComma) (lex n cs)
      else if c = CHR '':'' then map_option (Cons TColon) (lex n cs)
      else if c = CHR 0x22 then
        (case lex_string cs [] of
           None \<Rightarrow> None
         | Some (str, rest) \<Rightarrow> map_option (Cons (TString str)) (lex n rest))
      else if c = CHR ''-'' \<or> is_digit c then
        (case lex_number (c # cs) of
           None \<Rightarrow> None
         | Some (q, rest) \<Rightarrow> map_option (Cons (TNumber q)) (lex n rest))
      else if take 4 (c # cs) = ''true'' then map_option (Cons TTrue) (lex n (drop 3 cs))
      else if take 5 (c # cs) = ''false'' then map_option (Cons TFalse) (lex n (drop 4 cs))
      else if take 4 (c # cs) = ''null'' then map_option (Cons TNull) (lex n (drop 3 cs))
      else None)"

fun parse_value :: "nat \<Rightarrow> token list \<Rightarrow> (json \<times> token list) option"
  and parse_elements :: "nat \<Rightarrow> token list \<Rightarrow> (json list \<times> token list) option"
  and parse_members :: "nat \<Rightarrow> token list \<Rightarrow> ((string \<times> json) list \<times> token list) option"
where
  "parse_value 0 ts = None"
| "parse_value (Suc n) [] = None"
| "parse_value (Suc n) (t # ts) =
     (case t of
        TNull \<Rightarrow> Some (JNull, ts)
      | TTrue \<Rightarrow> Some (JBool True, ts)
      | TFalse \<Rightarrow> Some (JBool False, ts)
      | TString s \<Rightarrow> Some (JString s, ts)
      | TNumber q \<Rightarrow> Some (JNumber q, ts)
      | TLBracket \<Rightarrow>
          (case ts of
             TRBracket # r \<Rightarrow> Some (JArray [], r)
           | _ \<Rightarrow> map_option (\<lambda>(vs, r). (JArray vs, r)) (parse_elements n ts))
      | TLBrace \<Rightarrow>
          (case ts of
             TRBrace # r \<Rightarrow> Some (JObject [], r)
           | _ \<Rightarrow> map_option (\<lambda>(ms, r). (JObject ms, r)) (parse_members n ts))
      | _ \<Rightarrow> None)"
| "parse_elements 0 ts = None"
| "parse_elements (Suc n) ts =
     (case parse_value n ts of
        None \<Rightarrow> None
      | Some (v, r) \<Rightarrow>
          (case r of
             TComma # r' \<Rightarrow> map_option (\<lambda>(vs, r''). (v # vs, r'')) (parse_elements n r')
           | TRBracket # r' \<Rightarrow> Some ([v], r')
           | _ \<Rightarrow> None))"
| "parse_members 0 ts = None"
| "parse_members (Suc n) ts =
     (case ts of
        TString k # TColon # ts' \<Rightarrow>
          (case parse_value n ts' of
             None \<Rightarrow> None
           | Some (v, r) \<Rightarrow>
               (case r of
                  TComma # r' \<Rightarrow> map_option (\<lambda>(ms, r''). ((k, v) # ms, r'')) (parse_members n r')
                | TRBrace # r' \<Rightarrow> Some ([(k, v)], r')
                | _ \<Rightarrow> None))
      | _ \<Rightarrow> None)"

definition json_decode :: "string \<Rightarrow> json option" where
  "json_decode s =
     (case lex (Suc (length s)) s of
        None \<Rightarrow> None
      | Some ts \<Rightarrow>
          (case parse_value (2 * length ts + 2) ts of
             Some (v, []) \<Rightarrow> Some v
           | _ \<Rightarrow> None))"


section \<open>Observable effects\<close>

text \<open>
  Every function of the program returns, besides its result and the updated state,
  the list of effects it performs, in program order.  A log call is recorded with its
  level, the fixed text of its template literal and the interpolated values.
\<close>

datatype level = Error | Warn | Info | Debug

datatype link_event =
    LLog level string "json list"
  | WsConnect string string "(string \<times> string) list"
  | WsSend string
  | WsClose
  | SetTimeout nat
  | ClearTimeout
  | OnMessage string string
  | OnConnected string
  | OnDisconnected string
  | OnGaveUp string

text \<open>
  \<open>WsConnect url protocol headers\<close> is \<^verbatim>\<open>new WebSocket(url, protocol, {headers})\<close>,
  \<open>WsSend\<close> and \<open>WsClose\<close> are \<^verbatim>\<open>this.ws.send(data)\<close> and \<^verbatim>\<open>this.ws.close()\<close>,
  \<open>SetTimeout delay\<close> arms the reconnection timer, and the last four are the calls of
  the callbacks the owner of the link registered.
\<close>

datatype event =
    Log level string "json list"
  | Link nat link_event
  | ClientSend string
  | ClientClose nat string
  | Notify string "string list"

text \<open>
  \<open>Link k e\<close> is the effect \<open>e\<close> of the upstream link at position \<open>k\<close>;
  \<open>ClientSend\<close> and \<open>ClientClose\<close> are \<^verbatim>\<open>clientWs.send(data)\<close> and
  \<^verbatim>\<open>clientWs.close(code, reason)\<close>; \<open>Notify\<close> is a call of a method of the notifier.
\<close>

datatype exn = TypeError

section \<open>The router (class OcppRouter)\<close>

text \<open>
  \<^verbatim>\<open>clientCallIds\<close> is a JavaScript \<^verbatim>\<open>Set\<close> and \<^verbatim>\<open>messageIdToServer\<close> a \<^verbatim>\<open>Map\<close>.
  Both compare keys by SameValueZero: strings, numbers, booleans and null by value,
  arrays and objects by identity.  Every key the program looks up comes from a fresh
  \<^verbatim>\<open>JSON.parse\<close>, so an array or object key is never found again.
\<close>

definition is_primitive :: "json \<Rightarrow> bool" where
  "is_primitive v = (case v of JArray _ \<Rightarrow> False | JObject _ \<Rightarrow> False | _ \<Rightarrow> True)"

definition Set_has :: "json set \<Rightarrow> json \<Rightarrow> bool" where
  "Set_has S k = (is_primitive k \<and> k \<in> S)"

definition Set_add :: "json set \<Rightarrow> json \<Rightarrow> json set" where
  "Set_add S k = insert k S"

definition Map_get :: "(json \<rightharpoonup> string) \<Rightarrow> json \<Rightarrow> string option" where
  "Map_get m k = (if is_primitive k then m k else None)"

definition Map_set :: "(json \<rightharpoonup> string) \<Rightarrow> json \<Rightarrow> string \<Rightarrow> (json \<rightharpoonup> string)" where
  "Map_set m k v = m(k \<mapsto> v)"

definition Map_delete :: "(json \<rightharpoonup> string) \<Rightarrow> json \<Rightarrow> (json \<rightharpoonup> string)" where
  "Map_delete m k = (if is_primitive k then m(k := None) else m)"

text \<open>A string, \<^verbatim>\<open>undefined\<close> or \<^verbatim>\<open>null\<close> used as a condition: the empty string is falsy.\<close>

definition truthy :: "string option \<Rightarrow> bool" where
  "truthy x = (case x of None \<Rightarrow> False | Some n \<Rightarrow> n \<noteq> [])"

record message =
  raw :: string
  type :: json
  messageId :: json
  parsed :: "json list"

record router =
  messageIdToServer :: "json \<rightharpoonup> string"
  clientCallIds :: "json set"

record routing =
  sendToAll :: bool
  sendToServer :: "string option"

definition new_OcppRouter :: router where
  "new_OcppRouter = \<lparr>messageIdToServer = Map.empty, clientCallIds = {}\<rparr>"

definition parseMessage :: "(string \<Rightarrow> json option) \<Rightarrow> string \<Rightarrow> message option \<times> event list" where
  "parseMessage J data =
     (case J data of
        None \<Rightarrow> (None, [Log Error ''Failed to parse OCPP message: '' []])
      | Some (JArray xs) \<Rightarrow>
          if length xs < 2 then (None, [])
          else (Some \<lparr>raw = data, type = xs ! 0, messageId = xs ! 1, parsed = xs\<rparr>, [])
      | Some _ \<Rightarrow> (None, []))"

definition registerClientCall :: "router \<Rightarrow> json \<Rightarrow> router \<times> event list" where
  "registerClientCall r mid =
     (r\<lparr>clientCallIds := Set_add (clientCallIds r) mid\<rparr>,
      [Log Debug ''Registered client CALL with messageId: '' [mid]])"

definition shouldRelayResponseToClient ::
  "router \<Rightarrow> json \<Rightarrow> string \<Rightarrow> string option \<Rightarrow> bool \<times> event list" where
  "shouldRelayResponseToClient r mid serverName primaryServerName =
     (if \<not> Set_has (clientCallIds r) mid then (True, [])
      else if Some serverName = primaryServerName then
        (True, [Log Info ''Relaying response from ... for messageId: '' [JString serverName, mid]])
      else
        (False, [Log Debug ''Dropping response from ... for messageId: ... (not primary server)''
                   [JString serverName, mid]]))"

definition registerServerCall :: "router \<Rightarrow> json \<Rightarrow> string \<Rightarrow> router \<times> event list" where
  "registerServerCall r mid serverName =
     (r\<lparr>messageIdToServer := Map_set (messageIdToServer r) mid serverName\<rparr>,
      [Log Debug ''Registered CALL from ... with messageId: '' [JString serverName, mid]])"

definition getServerForResponse :: "router \<Rightarrow> json \<Rightarrow> string option \<times> router \<times> event list" where
  "getServerForResponse r mid =
     (let serverName = Map_get (messageIdToServer r) mid in
      if truthy serverName then
        (serverName,
         r\<lparr>messageIdToServer := Map_delete (messageIdToServer r) mid\<rparr>,
         [Log Debug ''Response for messageId ... should go to '' [mid, JString (the serverName)]])
      else (serverName, r, []))"

definition routeClientMessage :: "router \<Rightarrow> message option \<Rightarrow> routing \<times> router \<times> event list" where
  "routeClientMessage r message =
     (case message of
        None \<Rightarrow> (\<lparr>sendToAll = False, sendToServer = None\<rparr>, r, [])
      | Some m \<Rightarrow>
          if type m = JNumber 2 then
            (\<lparr>sendToAll = True, sendToServer = None\<rparr>, r,
             [Log Info ''CALL from client (...) -> routing to ALL servers'' [messageId m]])
          else if type m = JNumber 3 \<or> type m = JNumber 4 then
            (case getServerForResponse r (messageId m) of
               (serverName, r', ev) \<Rightarrow>
                 if truthy serverName then
                   (\<lparr>sendToAll = False, sendToServer = serverName\<rparr>, r',
                    ev @ [Log Info ''CALLRESULT/CALLERROR from client (...) -> routing to ''
                            [type m, messageId m, JString (the serverName)]])
                 else
                   (\<lparr>sendToAll = False, sendToServer = None\<rparr>, r',
                    ev @ [Log Warn ''No server mapping found for messageId '' [messageId m]]))
          else
            (\<lparr>sendToAll = False, sendToServer = None\<rparr>, r,
             [Log Warn ''Unknown message type '' [type m]]))"

definition handleServerMessage :: "router \<Rightarrow> message option \<Rightarrow> string \<Rightarrow> router \<times> event list" where
  "handleServerMessage r message serverName =
     (case message of
        None \<Rightarrow> (r, [])
      | Some m \<Rightarrow>
          (case (if type m = JNumber 2 then registerServerCall r (messageId m) serverName
                 else (r, [])) of
             (r', ev) \<Rightarrow>
               (r', ev @ [Log Debug ''Message from ... (type ..., id ...)''
                            [JString serverName, type m, messageId m]])))"

definition clear :: "router \<Rightarrow> router \<times> event list" where
  "clear r =
     (r\<lparr>messageIdToServer := Map.empty, clientCallIds := {}\<rparr>,
      [Log Debug ''Cleared all message mappings'' []])"


section \<open>The upstream link (class UpstreamConnection)\<close>

text \<open>
  \<^verbatim>\<open>this.ws\<close> is \<^verbatim>\<open>null\<close> or a WebSocket; the model keeps the socket's
  \<^verbatim>\<open>readyState\<close>.  \<open>reconnectTimer\<close> holds the delay of the pending timer.  The four
  callback fields say whether the owner has registered the callback.
\<close>

datatype ready_state = CONNECTING | OPEN | CLOSING | CLOSED

record upstream =
  name :: string
  baseUrl :: string
  clientId :: string
  protocol :: string
  clientIp :: "string option"
  ws :: "ready_state option"
  isConnected :: bool
  wasEverConnected :: bool
  closed :: bool
  reconnectAttempts :: nat
  maxReconnectAttempts :: nat
  reconnectTimer :: "nat option"
  onMessageCallback :: bool
  onConnectedCallback :: bool
  onDisconnectedCallback :: bool
  onGaveUpCallback :: bool

text \<open>
  The constructor declares five parameters.  A JavaScript call may pass more
  arguments than that; they are bound to no parameter, and the body cannot read
  them: \<open>surplus\<close> is the list of the arguments after the fifth.
\<close>

definition new_UpstreamConnection ::
  "string \<Rightarrow> string \<Rightarrow> string \<Rightarrow> string \<Rightarrow> string option \<Rightarrow> (string \<times> string) list list \<Rightarrow> upstream" where
  "new_UpstreamConnection name' baseUrl' clientId' protocol' clientIp' surplus =
     \<lparr>name = name', baseUrl = baseUrl', clientId = clientId', protocol = protocol',
      clientIp = (if truthy clientIp' then clientIp' else None),
      ws = None, isConnected = False, wasEverConnected = False, closed = False,
      reconnectAttempts = 0, maxReconnectAttempts = 10, reconnectTimer = None,
      onMessageCallback = False, onConnectedCallback = False,
      onDisconnectedCallback = False, onGaveUpCallback = False\<rparr>"

definition getUrl :: "upstream \<Rightarrow> string" where
  "getUrl u = baseUrl u @ clientId u"

definition scheduleReconnect :: "upstream \<Rightarrow> upstream \<times> link_event list" where
  "scheduleReconnect u =
     (if closed u then (u, [])
      else if reconnectTimer u \<noteq> None then (u, [])
      else if reconnectAttempts u \<ge> maxReconnectAttempts u then
        (u, LLog Error ''Max reconnection attempts reached'' []
            # (if onGaveUpCallback u then [OnGaveUp (name u)] else []))
      else
        (let attempts = reconnectAttempts u + 1;
             delay = min (5000 * 2 ^ (attempts - 1)) 60000
         in (u\<lparr>reconnectAttempts := attempts, reconnectTimer := Some delay\<rparr>,
             [LLog Info ''Reconnecting in ...s (attempt .../...)...''
                [JNumber (of_nat delay / 1000), JNumber (of_nat attempts),
                 JNumber (of_nat (maxReconnectAttempts u))],
              SetTimeout delay])))"

text \<open>
  \<open>connect\<close>: the flag \<open>throws\<close> says whether \<^verbatim>\<open>new WebSocket(...)\<close> throws (an
  invalid URL), which the \<^verbatim>\<open>catch\<close> block answers with \<open>scheduleReconnect\<close>.
\<close>

definition connect :: "bool \<Rightarrow> upstream \<Rightarrow> upstream \<times> link_event list" where
  "connect throws u =
     (if ws u \<noteq> None \<and> isConnected u then (u, [LLog Debug ''Already connected'' []])
      else
        (let url = getUrl u;
             headers = (if truthy (clientIp u)
                        then [(''X-Forwarded-For'', the (clientIp u)), (''X-Real-IP'', the (clientIp u))]
                        else [])
         in if throws then
              (case scheduleReconnect u of
                 (u', ev) \<Rightarrow>
                   (u', [LLog Debug ''Connecting to ...'' [JString url],
                         LLog Error ''Connection error: '' []] @ ev))
            else
              (u\<lparr>ws := Some CONNECTING\<rparr>,
               [LLog Debug ''Connecting to ...'' [JString url],
                WsConnect url (protocol u) headers])))"

text \<open>The handlers of the socket's events \<^verbatim>\<open>open\<close>, \<^verbatim>\<open>message\<close> and \<^verbatim>\<open>close\<close>.\<close>

definition ws_on_open :: "upstream \<Rightarrow> upstream \<times> link_event list" where
  "ws_on_open u =
     (u\<lparr>ws := map_option (\<lambda>_. OPEN) (ws u), isConnected := True,
        wasEverConnected := True, reconnectAttempts := 0\<rparr>,
      LLog Info ''Connected to '' [JString (getUrl u)]
        # (if onConnectedCallback u then [OnConnected (name u)] else []))"

definition ws_on_message :: "upstream \<Rightarrow> string \<Rightarrow> link_event list" where
  "ws_on_message u data = (if onMessageCallback u then [OnMessage data (name u)] else [])"

text \<open>
  The \<^verbatim>\<open>close\<close> handler calls the disconnection callback in its middle: the part
  before and the part after it are two functions, and the owner's callback runs
  between them.
\<close>

definition ws_on_close_begin :: "upstream \<Rightarrow> upstream \<times> link_event list" where
  "ws_on_close_begin u =
     (u\<lparr>ws := map_option (\<lambda>_. CLOSED) (ws u), isConnected := False\<rparr>,
      LLog Warn ''Disconnected'' []
        # (if onDisconnectedCallback u then [OnDisconnected (name u)] else []))"

definition ws_on_close_finish :: "upstream \<Rightarrow> upstream \<times> link_event list" where
  "ws_on_close_finish u = (if \<not> closed u then scheduleReconnect u else (u, []))"

definition ws_on_close :: "upstream \<Rightarrow> upstream \<times> link_event list" where
  "ws_on_close u =
     (case ws_on_close_begin u of
        (u1, ev1) \<Rightarrow> (case ws_on_close_finish u1 of (u2, ev2) \<Rightarrow> (u2, ev1 @ ev2)))"

text \<open>The function given to \<^verbatim>\<open>setTimeout\<close>.\<close>

definition timer_fired :: "bool \<Rightarrow> upstream \<Rightarrow> upstream \<times> link_event list" where
  "timer_fired throws u = connect throws (u\<lparr>reconnectTimer := None\<rparr>)"

text \<open>
  \<open>send\<close>: \<^verbatim>\<open>ws.send\<close> of the library throws on a socket that is still connecting;
  the \<^verbatim>\<open>catch\<close> block logs the error and returns \<^verbatim>\<open>false\<close>.
\<close>

definition send :: "upstream \<Rightarrow> string \<Rightarrow> bool \<times> link_event list" where
  "send u data =
     (if \<not> isConnected u \<or> ws u = None then (False, [LLog Warn ''Cannot send - not connected'' []])
      else if ws u = Some CONNECTING then (False, [WsSend data, LLog Error ''Send error: '' []])
      else (True, [WsSend data]))"

definition close :: "upstream \<Rightarrow> upstream \<times> link_event list" where
  "close u =
     (u\<lparr>closed := True, reconnectTimer := None, ws := None, isConnected := False\<rparr>,
      (if reconnectTimer u \<noteq> None then [ClearTimeout] else [])
        @ (if ws u \<noteq> None then [WsClose] else [])
        @ [LLog Info ''Connection closed (no reconnect)'' []])"

definition onMessage :: "upstream \<Rightarrow> upstream" where
  "onMessage u = u\<lparr>onMessageCallback := True\<rparr>"

definition onConnected :: "upstream \<Rightarrow> upstream" where
  "onConnected u = u\<lparr>onConnectedCallback := True\<rparr>"

definition onDisconnected :: "upstream \<Rightarrow> upstream" where
  "onDisconnected u = u\<lparr>onDisconnectedCallback := True\<rparr>"

definition onGaveUp :: "upstream \<Rightarrow> upstream" where
  "onGaveUp u = u\<lparr>onGaveUpCallback := True\<rparr>"

subsection \<open>When the events of a link can occur\<close>

text \<open>
  The socket and the timer are the library's: a socket emits \<^verbatim>\<open>open\<close> once, while it
  is connecting; it emits \<^verbatim>\<open>close\<close> once, when it is not yet closed, also after
  \<open>close\<close> has detached it from the link; a timer fires only while it is pending.
\<close>

definition can_open :: "upstream \<Rightarrow> bool" where
  "can_open u = (ws u = Some CONNECTING)"

definition can_close :: "upstream \<Rightarrow> bool" where
  "can_close u =
     (ws u = Some CONNECTING \<or> ws u = Some OPEN \<or> ws u = Some CLOSING \<or> (ws u = None \<and> closed u))"

definition can_fire :: "upstream \<Rightarrow> bool" where
  "can_fire u = (reconnectTimer u \<noteq> None)"


section \<open>The session of one client (class OcppProxy, per connection)\<close>

text \<open>
  A \<open>session\<close> is the \<^verbatim>\<open>connectionInfo\<close> object of one client together with what
  the closures of \<^verbatim>\<open>handleClientConnection\<close> capture: the \<^verbatim>\<open>readyState\<close> of the
  client socket, the upstream links and the router.  \<open>registered\<close> says whether
  \<^verbatim>\<open>this.clientConnections.get(clientWs)\<close> finds the object.  An upstream link is
  named by its position in \<open>upstreams\<close>.  The parameter \<open>nf\<close> of the functions below
  says whether \<^verbatim>\<open>this.notifier\<close> is set.

  A function that can throw returns the state and the effects reached so far and
  the exception, if any.
\<close>

record session =
  clientWs :: ready_state
  upstreams :: "upstream list"
  router :: router
  clientId :: string
  protocol :: string
  messageBuffer :: "string list"
  registered :: bool

type_synonym 's result = "'s \<times> event list \<times> exn option"

definition then_do :: "'s result \<Rightarrow> ('s \<Rightarrow> 's result) \<Rightarrow> 's result" where
  "then_do r f =
     (case r of
        (s, ev, Some e) \<Rightarrow> (s, ev, Some e)
      | (s, ev, None) \<Rightarrow> (case f s of (s', ev', x) \<Rightarrow> (s', ev @ ev', x)))"

definition returns :: "'s \<times> event list \<Rightarrow> 's result" where
  "returns r = (fst r, snd r, None)"

text \<open>\<^verbatim>\<open>upstreams.forEach\<close> of \<open>handleClientMessage\<close>: the effects of the fan-out.\<close>

definition send_to_all :: "upstream list \<Rightarrow> string \<Rightarrow> event list" where
  "send_to_all us data =
     concat (map (\<lambda>(k, u).
                if isConnected u then map (Link k) (snd (send u data))
                else [Log Warn ''Cannot send to ... - not connected'' [JString (name u)]])
             (enumerate 0 us))"

text \<open>\<^verbatim>\<open>upstreams.find((u) => u.name === n)\<close>, with the position of the link found.\<close>

definition find_upstream :: "upstream list \<Rightarrow> string \<Rightarrow> (nat \<times> upstream) option" where
  "find_upstream us n = List.find (\<lambda>(k, u). name u = n) (enumerate 0 us)"

definition handleClientMessage ::
  "(string \<Rightarrow> json option) \<Rightarrow> bool \<Rightarrow> session \<Rightarrow> string \<Rightarrow> session result" where
  "handleClientMessage J nf s data =
     (case parseMessage J data of
        (None, ev0) \<Rightarrow>
          (s, ev0 @ [Log Warn ''Received invalid message from client, ignoring'' []], None)
      | (Some m, ev0) \<Rightarrow>
          (case routeClientMessage (router s) (Some m) of
             (route, r1, ev1) \<Rightarrow>
               if sendToAll route then
                 (case (if type m = JNumber 2 then registerClientCall r1 (messageId m)
                        else (r1, [])) of
                    (r2, ev2) \<Rightarrow>
                      if type m = JNumber 2 \<and> nf \<and> \<not> registered s then
                        (s\<lparr>router := r2\<rparr>, ev0 @ ev1 @ ev2, Some TypeError)
                      else
                        (s\<lparr>router := r2\<rparr>,
                         ev0 @ ev1 @ ev2
                           @ (if type m = JNumber 2 \<and> nf
                              then [Notify ''callFromClient'' [clientId s, data]] else [])
                           @ send_to_all (upstreams s) data,
                         None))
               else if truthy (sendToServer route) then
                 (case find_upstream (upstreams s) (the (sendToServer route)) of
                    Some (k, u) \<Rightarrow>
                      if isConnected u then
                        (s\<lparr>router := r1\<rparr>, ev0 @ ev1 @ map (Link k) (snd (send u data)), None)
                      else
                        (s\<lparr>router := r1\<rparr>,
                         ev0 @ ev1 @ [Log Warn ''Target server ... not found or not connected''
                                       [JString (the (sendToServer route))]],
                         None)
                  | None \<Rightarrow>
                      (s\<lparr>router := r1\<rparr>,
                       ev0 @ ev1 @ [Log Warn ''Target server ... not found or not connected''
                                     [JString (the (sendToServer route))]],
                       None))
               else (s\<lparr>router := r1\<rparr>, ev0 @ ev1, None)))"

text \<open>The relay at the end of \<open>handleUpstreamMessage\<close>.\<close>

definition relay_to_client :: "session \<Rightarrow> string \<Rightarrow> event list" where
  "relay_to_client s data = (if clientWs s = OPEN then [ClientSend data] else [])"

text \<open>
  \<open>handleUpstreamMessage\<close>: \<open>serverName\<close> is the name of the link that received the
  frame.  \<^verbatim>\<open>connectionInfo.upstreams[0].name\<close> throws when the list is empty.
\<close>

definition handleUpstreamMessage ::
  "(string \<Rightarrow> json option) \<Rightarrow> session \<Rightarrow> string \<Rightarrow> string \<Rightarrow> session result" where
  "handleUpstreamMessage J s data serverName =
     (case parseMessage J data of
        (message, ev0) \<Rightarrow>
          (case (if message \<noteq> None then handleServerMessage (router s) message serverName
                 else (router s, [])) of
             (r1, ev1) \<Rightarrow>
               if message \<noteq> None
                  \<and> (type (the message) = JNumber 3 \<or> type (the message) = JNumber 4) then
                 (if registered s \<and> upstreams s = [] then
                    (s\<lparr>router := r1\<rparr>, ev0 @ ev1, Some TypeError)
                  else
                    (let primaryServerName =
                           (if registered s then Some (name (hd (upstreams s))) else None)
                     in case shouldRelayResponseToClient r1 (messageId (the message))
                               serverName primaryServerName of
                          (relay, ev2) \<Rightarrow>
                            if \<not> relay then (s\<lparr>router := r1\<rparr>, ev0 @ ev1 @ ev2, None)
                            else (s\<lparr>router := r1\<rparr>,
                                  ev0 @ ev1 @ ev2 @ relay_to_client s data, None)))
               else (s\<lparr>router := r1\<rparr>, ev0 @ ev1 @ relay_to_client s data, None)))"

text \<open>The handler of the client socket's \<^verbatim>\<open>message\<close> event.\<close>

definition clientWs_on_message ::
  "(string \<Rightarrow> json option) \<Rightarrow> bool \<Rightarrow> session \<Rightarrow> string \<Rightarrow> session result" where
  "clientWs_on_message J nf s msg =
     (if registered s \<and> \<not> list_ex isConnected (upstreams s) then
        (s\<lparr>messageBuffer := messageBuffer s @ [msg]\<rparr>,
         [Log Info ''No upstream connected yet, buffering message (... in buffer)''
            [JNumber (of_nat (length (messageBuffer s) + 1))]],
         None)
      else handleClientMessage J nf s msg)"

text \<open>The loop of \<open>sendBufferToUpstream\<close> over a copy of the buffer.\<close>

fun route_buffered ::
  "(string \<Rightarrow> json option) \<Rightarrow> bool \<Rightarrow> session \<Rightarrow> string list \<Rightarrow> session result" where
  "route_buffered J nf s [] = (s, [], None)"
| "route_buffered J nf s (msg # msgs) =
     then_do (handleClientMessage J nf s msg) (\<lambda>s'. route_buffered J nf s' msgs)"

text \<open>
  \<open>sendBufferToUpstream\<close>: \<open>k\<close> is the position of the link that connected; the test
  \<^verbatim>\<open>upstream === primaryServer\<close> compares it with the link at position 0.
\<close>

definition sendBufferToUpstream ::
  "(string \<Rightarrow> json option) \<Rightarrow> bool \<Rightarrow> session \<Rightarrow> nat \<Rightarrow> session result" where
  "sendBufferToUpstream J nf s k =
     (if \<not> registered s \<or> messageBuffer s = [] then (s, [], None)
      else if k = 0 then
        then_do
          (s, [Log Info ''Primary server connected (...) - routing ... buffered message(s) through router''
                 [JString (name (upstreams s ! k)), JNumber (of_nat (length (messageBuffer s)))]],
           None)
          (\<lambda>s'. route_buffered J nf s' (messageBuffer s))
      else
        (s,
         Log Info ''Sending ... buffered message(s) to ...''
           [JNumber (of_nat (length (messageBuffer s))), JString (name (upstreams s ! k))]
           # concat (map (\<lambda>msg. map (Link k) (snd (send (upstreams s ! k) msg))) (messageBuffer s)),
         None))"

definition flushMessageBufferIfAllConnected :: "session \<Rightarrow> session \<times> event list" where
  "flushMessageBufferIfAllConnected s =
     (if \<not> registered s \<or> messageBuffer s = [] then (s, [])
      else if list_all (\<lambda>u. isConnected u \<or> reconnectAttempts u \<ge> maxReconnectAttempts u)
                (upstreams s) then
        (s\<lparr>messageBuffer := []\<rparr>,
         [Log Info ''All upstreams connected - clearing message buffer (... message(s))''
            [JNumber (of_nat (length (messageBuffer s)))]])
      else (s, []))"

definition cleanupClientConnection :: "session \<Rightarrow> session \<times> event list" where
  "cleanupClientConnection s =
     (if \<not> registered s then (s, [])
      else
        (s\<lparr>upstreams := map (\<lambda>u. fst (close u)) (upstreams s),
           router := fst (clear (router s)),
           registered := False\<rparr>,
         concat (map (\<lambda>(k, u). map (Link k) (snd (close u))) (enumerate 0 (upstreams s)))
           @ snd (clear (router s))
           @ [Log Info ''Client connection cleanup complete'' []]))"

text \<open>\<^verbatim>\<open>clientWs.close(code, reason)\<close> on the socket's \<^verbatim>\<open>readyState\<close>.\<close>

definition closing :: "ready_state \<Rightarrow> ready_state" where
  "closing rs = (if rs = CLOSED then CLOSED else CLOSING)"

definition checkUpstreamsStatus :: "session \<Rightarrow> session \<times> event list" where
  "checkUpstreamsStatus s =
     (if \<not> registered s then (s, [])
      else if list_ex (\<lambda>u. \<not> isConnected u \<and> \<not> wasEverConnected u
                            \<and> reconnectAttempts u < maxReconnectAttempts u) (upstreams s) then
        (s, [Log Info ''Some upstream servers still attempting initial connection, keeping client alive'' []])
      else if list_all (\<lambda>u. \<not> isConnected u) (upstreams s) then
        (case cleanupClientConnection (s\<lparr>clientWs := closing (clientWs s)\<rparr>) of
           (s', ev) \<Rightarrow>
             (s', [Log Info ''All upstream servers disconnected - closing client connection'' [],
                   ClientClose 1001 ''All upstream servers unavailable''] @ ev))
      else (s, []))"

subsection \<open>The callbacks the session registers on each link\<close>

definition upstream_onConnected ::
  "(string \<Rightarrow> json option) \<Rightarrow> bool \<Rightarrow> session \<Rightarrow> nat \<Rightarrow> session result" where
  "upstream_onConnected J nf s k =
     then_do (sendBufferToUpstream J nf s k)
       (\<lambda>s1. case flushMessageBufferIfAllConnected s1 of
                (s2, ev) \<Rightarrow>
                  (s2,
                   ev @ (if nf then [Notify ''connectedToUpstream''
                                       [clientId s, name (upstreams s ! k)]] else []),
                   None))"

definition upstream_onDisconnected :: "bool \<Rightarrow> session \<Rightarrow> nat \<Rightarrow> session \<times> event list" where
  "upstream_onDisconnected nf s k =
     (case checkUpstreamsStatus s of
        (s1, ev) \<Rightarrow>
          (s1, ev @ (if nf then [Notify ''disconnectedFromUpstream''
                                   [clientId s, name (upstreams s ! k)]] else [])))"

definition upstream_onGaveUp :: "session \<Rightarrow> nat \<Rightarrow> session \<times> event list" where
  "upstream_onGaveUp s k =
     (case flushMessageBufferIfAllConnected s of
        (s1, ev1) \<Rightarrow> (case checkUpstreamsStatus s1 of (s2, ev2) \<Rightarrow> (s2, ev1 @ ev2)))"

subsection \<open>The events of one session\<close>

text \<open>
  The events a live session reacts to, each handled by the link's handler followed by
  the callback the handler calls: a frame from the client, and for the link at a
  position the socket's \<^verbatim>\<open>open\<close>, \<^verbatim>\<open>message\<close> and \<^verbatim>\<open>close\<close> events and the
  reconnection timer.
\<close>

definition set_link :: "session \<Rightarrow> nat \<Rightarrow> upstream \<Rightarrow> session" where
  "set_link s k u = s\<lparr>upstreams := (upstreams s)[k := u]\<rparr>"

definition gave_up_after :: "session \<Rightarrow> nat \<Rightarrow> link_event list \<Rightarrow> session \<times> event list" where
  "gave_up_after s k ev =
     (if OnGaveUp (name (upstreams s ! k)) \<in> set ev then upstream_onGaveUp s k else (s, []))"

definition link_open ::
  "(string \<Rightarrow> json option) \<Rightarrow> bool \<Rightarrow> session \<Rightarrow> nat \<Rightarrow> session result" where
  "link_open J nf s k =
     (case ws_on_open (upstreams s ! k) of
        (u, ev) \<Rightarrow>
          then_do (set_link s k u, map (Link k) ev, None)
            (\<lambda>s1. if OnConnected (name u) \<in> set ev then upstream_onConnected J nf s1 k
                   else (s1, [], None)))"

definition link_message ::
  "(string \<Rightarrow> json option) \<Rightarrow> session \<Rightarrow> nat \<Rightarrow> string \<Rightarrow> session result" where
  "link_message J s k data =
     (if OnMessage data (name (upstreams s ! k)) \<in> set (ws_on_message (upstreams s ! k) data)
      then handleUpstreamMessage J s data (name (upstreams s ! k))
      else (s, [], None))"

definition link_close :: "bool \<Rightarrow> session \<Rightarrow> nat \<Rightarrow> session \<times> event list" where
  "link_close nf s k =
     (case ws_on_close_begin (upstreams s ! k) of
        (u1, ev1) \<Rightarrow>
          (case (if OnDisconnected (name u1) \<in> set ev1
                 then upstream_onDisconnected nf (set_link s k u1) k
                 else (set_link s k u1, [])) of
             (s2, ev2) \<Rightarrow>
               (case ws_on_close_finish (upstreams s2 ! k) of
                  (u3, ev3) \<Rightarrow>
                    (case gave_up_after (set_link s2 k u3) k ev3 of
                       (s4, ev4) \<Rightarrow> (s4, map (Link k) ev1 @ ev2 @ map (Link k) ev3 @ ev4)))))"

definition link_timer :: "bool \<Rightarrow> session \<Rightarrow> nat \<Rightarrow> session \<times> event list" where
  "link_timer throws s k =
     (case timer_fired throws (upstreams s ! k) of
        (u, ev) \<Rightarrow>
          (case gave_up_after (set_link s k u) k ev of
             (s2, ev2) \<Rightarrow> (s2, map (Link k) ev @ ev2)))"

text \<open>The handler of the client socket's \<^verbatim>\<open>close\<close> event.\<close>

definition clientWs_on_close :: "bool \<Rightarrow> session \<Rightarrow> session \<times> event list" where
  "clientWs_on_close nf s =
     (case cleanupClientConnection (s\<lparr>clientWs := CLOSED\<rparr>) of
        (s', ev) \<Rightarrow>
          (s', Log Info ''Client disconnected'' []
                 # (if nf then [Notify ''disconnectedFromProxy'' [clientId s]] else []) @ ev))"

datatype session_event =
    FromClient string
  | ClientGone
  | LinkOpened nat
  | LinkFrame nat string
  | LinkClosed nat
  | LinkTimer nat

definition drop_exn :: "session result \<Rightarrow> session \<times> event list" where
  "drop_exn r = (fst r, fst (snd r))"

text \<open>
  One event of a session.  An event of a link names a position of the list of links
  and occurs only when the link's socket or timer can produce it.  \<open>wsThrows\<close> says for
  which URLs \<^verbatim>\<open>new WebSocket\<close> throws.  An exception that leaves a handler ends the
  process; the step keeps the state reached before it.
\<close>

definition session_step ::
  "(string \<Rightarrow> json option) \<Rightarrow> bool \<Rightarrow> (string \<Rightarrow> bool) \<Rightarrow> session \<Rightarrow> session_event
     \<Rightarrow> session \<times> event list" where
  "session_step J nf wsThrows s e =
     (case e of
        FromClient msg \<Rightarrow> drop_exn (clientWs_on_message J nf s msg)
      | ClientGone \<Rightarrow> clientWs_on_close nf s
      | LinkOpened k \<Rightarrow>
          if k < length (upstreams s) \<and> can_open (upstreams s ! k)
          then drop_exn (link_open J nf s k) else (s, [])
      | LinkFrame k data \<Rightarrow>
          if k < length (upstreams s) then drop_exn (link_message J s k data) else (s, [])
      | LinkClosed k \<Rightarrow>
          if k < length (upstreams s) \<and> can_close (upstreams s ! k)
          then link_close nf s k else (s, [])
      | LinkTimer k \<Rightarrow>
          if k < length (upstreams s) \<and> can_fire (upstreams s ! k)
          then link_timer (wsThrows (getUrl (upstreams s ! k))) s k else (s, []))"

fun session_run ::
  "(string \<Rightarrow> json option) \<Rightarrow> bool \<Rightarrow> (string \<Rightarrow> bool) \<Rightarrow> session \<Rightarrow> session_event list
     \<Rightarrow> session" where
  "session_run J nf wsThrows s [] = s"
| "session_run J nf wsThrows s (e # es) =
     session_run J nf wsThrows (fst (session_step J nf wsThrows s e)) es"


section \<open>The listener and the registry of sessions (class OcppProxy)\<close>

text \<open>
  \<^verbatim>\<open>this.clientConnections\<close> is a \<^verbatim>\<open>Map\<close> from client sockets to their
  \<^verbatim>\<open>connectionInfo\<close>; it iterates in insertion order.  A socket is a number.  An
  effect of the proxy is tagged with the client socket it belongs to.
\<close>

record request =
  url :: "string option"
  headers :: "(string \<times> string) list"
  remoteAddress :: "string option"

record OcppProxy =
  config_upstreams :: "(string \<times> string) list"
  notifier :: bool
  clientConnections :: "(nat \<times> session) list"

definition Map_put :: "(nat \<times> session) list \<Rightarrow> nat \<Rightarrow> session \<Rightarrow> (nat \<times> session) list" where
  "Map_put m k v =
     (if k \<in> fst ` set m then map (\<lambda>(k', v'). if k' = k then (k', v) else (k', v')) m
      else m @ [(k, v)])"

definition Map_remove :: "(nat \<times> session) list \<Rightarrow> nat \<Rightarrow> (nat \<times> session) list" where
  "Map_remove m k = filter (\<lambda>(k', v'). k' \<noteq> k) m"

definition tagged :: "nat \<Rightarrow> event list \<Rightarrow> (nat \<times> event) list" where
  "tagged w ev = map (Pair w) ev"

text \<open>\<open>cleanupClientConnection\<close> with its lookup and its \<^verbatim>\<open>delete\<close> in the registry.\<close>

definition cleanupClientConnection_of :: "OcppProxy \<Rightarrow> nat \<Rightarrow> OcppProxy \<times> (nat \<times> event) list" where
  "cleanupClientConnection_of this w =
     (case map_of (clientConnections this) w of
        None \<Rightarrow> (this, [])
      | Some s \<Rightarrow>
          (this\<lparr>clientConnections := Map_remove (clientConnections this) w\<rparr>,
           tagged w (snd (cleanupClientConnection s))))"

text \<open>The path test \<^verbatim>\<open>rawPath.replace(/^\/+/, '').match(/^([a-zA-Z0-9_-]+)$/)\<close>.\<close>

definition is_id_char :: "char \<Rightarrow> bool" where
  "is_id_char c =
     (let n = (of_char c :: nat)
      in (97 \<le> n \<and> n \<le> 122) \<or> (65 \<le> n \<and> n \<le> 90) \<or> (48 \<le> n \<and> n \<le> 57)
         \<or> c = CHR ''_'' \<or> c = CHR ''-'')"

definition match_path :: "string \<Rightarrow> string option" where
  "match_path rawPath =
     (let rest = dropWhile (\<lambda>c. c = CHR ''/'') rawPath
      in if rest \<noteq> [] \<and> list_all is_id_char rest then Some rest else None)"

text \<open>
  \<^verbatim>\<open>String.prototype.trim\<close>.  A header value holds characters below U+0100 only; of
  these, the white space and line terminators that \<^verbatim>\<open>trim\<close> strips are U+0009 to U+000D,
  U+0020 and U+00A0.
\<close>

definition is_space :: "char \<Rightarrow> bool" where
  "is_space c =
     (c = CHR '' '' \<or> (9 \<le> (of_char c :: nat) \<and> (of_char c :: nat) \<le> 13)
      \<or> (of_char c :: nat) = 160)"

definition trim :: "string \<Rightarrow> string" where
  "trim s = rev (dropWhile is_space (rev (dropWhile is_space s)))"

definition header :: "request \<Rightarrow> string \<Rightarrow> string option" where
  "header req h = map_of (headers req) h"

definition client_ip :: "request \<Rightarrow> string option" where
  "client_ip req =
     (let xff = (if truthy (header req ''x-forwarded-for'')
                 then the (header req ''x-forwarded-for'') else []);
          first = trim (takeWhile (\<lambda>c. c \<noteq> CHR '','') xff)
      in if first \<noteq> [] then Some first else remoteAddress req)"

definition forwardedHeaders :: "request \<Rightarrow> (string \<times> string) list" where
  "forwardedHeaders req =
     (if truthy (header req ''authorization'')
      then [(''Authorization'', the (header req ''authorization''))] else [])
     @ (if truthy (header req ''user-agent'')
        then [(''User-Agent'', the (header req ''user-agent''))] else [])"

text \<open>
  \<open>handleClientConnection\<close>: \<open>w\<close> is the new client socket, \<open>wsProtocol\<close> its negotiated
  subprotocol (\<^verbatim>\<open>clientWs.protocol\<close>), and \<open>wsThrows\<close> says for which URLs
  \<^verbatim>\<open>new WebSocket\<close> throws.  \<open>close_existing\<close> is the scan for a session with the
  same client ID, \<open>start_link\<close> the subscription to a link's events followed by its
  \<open>connect\<close>, \<open>new_links\<close> and \<open>new_session\<close> the links and the \<^verbatim>\<open>connectionInfo\<close> of the
  new session, and \<open>accept_connection\<close> the function's body after the path test.
\<close>

definition close_existing :: "OcppProxy \<Rightarrow> nat \<Rightarrow> string \<Rightarrow> OcppProxy \<times> (nat \<times> event) list" where
  "close_existing this w cid =
     (case List.find (\<lambda>(w, c). clientId c = cid) (clientConnections this) of
        None \<Rightarrow> (this, [])
      | Some (existingWs, c) \<Rightarrow>
          (case cleanupClientConnection_of this existingWs of
             (this', ev) \<Rightarrow>
               (this',
                (w, Log Warn ''Client ID already in use - closing existing connection'' [])
                  # ev @ [(existingWs, ClientClose 1001 ''Replaced by a new connection'')])))"

definition start_link :: "(string \<Rightarrow> bool) \<Rightarrow> upstream \<Rightarrow> upstream \<times> link_event list" where
  "start_link wsThrows u =
     (let u' = onGaveUp (onDisconnected (onConnected (onMessage u)))
      in connect (wsThrows (getUrl u')) u')"

definition new_links ::
  "(string \<Rightarrow> bool) \<Rightarrow> OcppProxy \<Rightarrow> string \<Rightarrow> request \<Rightarrow> string
     \<Rightarrow> (upstream \<times> link_event list) list" where
  "new_links wsThrows this proto req cid =
     map (start_link wsThrows)
       (map (\<lambda>(n, base).
               new_UpstreamConnection n base cid proto (client_ip req) [forwardedHeaders req])
          (config_upstreams this))"

definition new_session ::
  "(string \<Rightarrow> bool) \<Rightarrow> OcppProxy \<Rightarrow> string \<Rightarrow> request \<Rightarrow> string \<Rightarrow> session" where
  "new_session wsThrows this proto req cid =
     \<lparr>clientWs = OPEN, upstreams = map fst (new_links wsThrows this proto req cid),
      router = new_OcppRouter, clientId = cid, protocol = proto,
      messageBuffer = [], registered = True\<rparr>"

definition accept_connection ::
  "(string \<Rightarrow> bool) \<Rightarrow> OcppProxy \<Rightarrow> nat \<Rightarrow> string \<Rightarrow> request \<Rightarrow> string
     \<Rightarrow> OcppProxy \<times> (nat \<times> event) list" where
  "accept_connection wsThrows this w wsProtocol req cid =
     (let proto = (if wsProtocol \<noteq> [] then wsProtocol else ''ocpp1.6'');
          closed_old = close_existing this w cid;
          ip = client_ip req
      in ((fst closed_old)\<lparr>clientConnections :=
                               Map_put (clientConnections (fst closed_old)) w
                                 (new_session wsThrows this proto req cid)\<rparr>,
          snd closed_old
            @ tagged w
                ([Log Debug ''========================================'' [],
                  Log Debug ''New client connection: '' [JString cid],
                  Log Debug ''Protocol: '' [JString proto],
                  Log Debug ''========================================'' []]
                 @ (if notifier this then [Notify ''connectedToProxy'' [cid]] else [])
                 @ [Log Debug ''Client IP: '' (case ip of None \<Rightarrow> [] | Some a \<Rightarrow> [JString a])]
                 @ concat (map (\<lambda>(k, r). map (Link k) (snd r))
                             (enumerate 0 (new_links wsThrows this proto req cid))))))"

definition handleClientConnection ::
  "(string \<Rightarrow> bool) \<Rightarrow> OcppProxy \<Rightarrow> nat \<Rightarrow> string \<Rightarrow> request \<Rightarrow> OcppProxy \<times> (nat \<times> event) list" where
  "handleClientConnection wsThrows this w wsProtocol req =
     (let rawPath = (if truthy (url req) then the (url req) else ''/'') in
      case match_path rawPath of
        None \<Rightarrow>
          (this,
           [(w, Log Warn ''Rejected client connection: invalid path ...'' [JString rawPath]),
            (w, ClientClose 1008
               ''Invalid path: must be single-level alphanumeric, underscore, or hyphen'')])
      | Some cid \<Rightarrow> accept_connection wsThrows this w wsProtocol req cid)"

definition stop :: "OcppProxy \<Rightarrow> OcppProxy \<times> (nat \<times> event) list" where
  "stop this =
     (this\<lparr>clientConnections := []\<rparr>,
      concat (map (\<lambda>(w, s). tagged w (snd (cleanupClientConnection s))) (clientConnections this))
        @ [(0, Log Info ''Server stopped'' [])])"

subsection \<open>The events of the proxy\<close>

text \<open>
  What can happen to a running proxy: a new client connection, an event of one of the
  sessions, and the shutdown.  An event of a session that is no longer registered
  finds no \<^verbatim>\<open>connectionInfo\<close> and leaves the registry as it is.  A session whose
  handler unregisters it is deleted from the registry.
\<close>

datatype proxy_event =
    Connection nat string request
  | OfSession nat session_event
  | Shutdown

definition on_session ::
  "OcppProxy \<Rightarrow> nat \<Rightarrow> (session \<Rightarrow> session \<times> event list) \<Rightarrow> OcppProxy \<times> (nat \<times> event) list" where
  "on_session this w f =
     (case map_of (clientConnections this) w of
        None \<Rightarrow> (this, [])
      | Some s \<Rightarrow>
          (case f s of
             (s', ev) \<Rightarrow>
               (this\<lparr>clientConnections :=
                        (if registered s' then Map_put (clientConnections this) w s'
                         else Map_remove (clientConnections this) w)\<rparr>,
                tagged w ev)))"

definition proxy_step ::
  "(string \<Rightarrow> json option) \<Rightarrow> (string \<Rightarrow> bool) \<Rightarrow> OcppProxy \<Rightarrow> proxy_event \<Rightarrow> OcppProxy \<times> (nat \<times> event) list" where
  "proxy_step J wsThrows this e =
     (case e of
        Connection w proto req \<Rightarrow> handleClientConnection wsThrows this w proto req
      | OfSession w e' \<Rightarrow> on_session this w (\<lambda>s. session_step J (notifier this) wsThrows s e')
      | Shutdown \<Rightarrow> stop this)"

fun proxy_run ::
  "(string \<Rightarrow> json option) \<Rightarrow> (string \<Rightarrow> bool) \<Rightarrow> OcppProxy \<Rightarrow> proxy_event list \<Rightarrow> OcppProxy" where
  "proxy_run J wsThrows this [] = this"
| "proxy_run J wsThrows this (e # es) = proxy_run J wsThrows (fst (proxy_step J wsThrows this e)) es"

definition new_OcppProxy :: "(string \<times> string) list \<Rightarrow> bool \<Rightarrow> OcppProxy" where
  "new_OcppProxy ups nf = \<lparr>config_upstreams = ups, notifier = nf, clientConnections = []\<rparr>"


section \<open>Concrete sessions\<close>

text \<open>
  The configuration the entry point builds has the primary link \<^verbatim>\<open>PRI\<close> at position
  0 and, optionally, the secondary link \<^verbatim>\<open>SEC\<close> at position 1.  The sessions below
  are used to evaluate the program on concrete inputs.
\<close>

definition link_idle :: "string \<Rightarrow> upstream" where
  "link_idle n =
     \<lparr>name = n, baseUrl = ''ws://'' @ n @ ''/'', clientId = ''CP1'', protocol = ''ocpp1.6'',
      clientIp = Some ''10.0.0.7'',
      ws = Some CONNECTING, isConnected = False, wasEverConnected = False, closed = False,
      reconnectAttempts = 0, maxReconnectAttempts = 10, reconnectTimer = None,
      onMessageCallback = True, onConnectedCallback = True,
      onDisconnectedCallback = True, onGaveUpCallback = True\<rparr>"

definition link_up :: "string \<Rightarrow> upstream" where
  "link_up n = (link_idle n)\<lparr>ws := Some OPEN, isConnected := True, wasEverConnected := True\<rparr>"

definition session_of :: "upstream list \<Rightarrow> session" where
  "session_of us =
     \<lparr>clientWs = OPEN, upstreams = us, router = new_OcppRouter, clientId = ''CP1'',
      protocol = ''ocpp1.6'', messageBuffer = [], registered = True\<rparr>"

definition session_up :: session where
  "session_up = session_of [link_up ''PRI'', link_up ''SEC'']"


text \<open>
  A link that was connected and has lost its socket; a session that has lost both
  links; a session that has lost the primary while the secondary is still making its
  first connection.
\<close>

definition link_lost :: "string \<Rightarrow> upstream" where
  "link_lost n = (link_up n)\<lparr>ws := Some CLOSED, isConnected := False\<rparr>"

definition session_lost :: session where
  "session_lost = session_of [link_lost ''PRI'', link_lost ''SEC'']"

definition session_waiting :: session where
  "session_waiting = session_of [link_lost ''PRI'', link_idle ''SEC'']"



section \<open>The parser's accepted shape, in the words of the specification\<close>

text \<open>
  The specification accepts a frame only when it decodes to a JSON array of length at
  least 2 whose first element is an integer in {2, 3, 4} and whose second element is a
  string.  This predicate is the specification's, not the program's.
\<close>

definition spec_accepted_shape :: "json option \<Rightarrow> bool" where
  "spec_accepted_shape d =
     (case d of
        Some (JArray xs) \<Rightarrow>
          2 \<le> length xs
          \<and> (xs ! 0 = JNumber 2 \<or> xs ! 0 = JNumber 3 \<or> xs ! 0 = JNumber 4)
          \<and> (case xs ! 1 of JString _ \<Rightarrow> True | _ \<Rightarrow> False)
      | _ \<Rightarrow> False)"

text \<open>
  A proxy configured with both upstreams and no notifier, and the upgrade request of
  the client \<^verbatim>\<open>CP1\<close> carrying an \<^verbatim>\<open>Authorization\<close> and a \<^verbatim>\<open>User-Agent\<close> header.
\<close>

definition proxy_two :: OcppProxy where
  "proxy_two = new_OcppProxy [(''PRI'', ''ws://pri/''), (''SEC'', ''ws://sec/'')] False"

definition request_auth :: request where
  "request_auth =
     \<lparr>url = Some ''/CP1'',
      headers = [(''authorization'', ''Basic abc''), (''user-agent'', ''CP/1.0'')],
      remoteAddress = Some ''10.0.0.7''\<rparr>"

text \<open>
  A session whose primary link has just connected while the buffer holds a client
  reply, and one whose secondary link has just connected while the primary is still
  connecting and the buffer holds a client CALL.
\<close>

definition session_buffered_reply :: session where
  "session_buffered_reply = (session_of [link_up ''PRI'', link_idle ''SEC''])
     \<lparr>messageBuffer := [[CHR ''['', CHR ''3'', CHR '','', CHR 0x22, CHR ''m'', CHR ''1'', CHR 0x22,
                         CHR '','', CHR ''{'', CHR ''}'', CHR '']'']]\<rparr>"

definition session_buffered_call :: session where
  "session_buffered_call = (session_of [link_idle ''PRI'', link_up ''SEC''])
     \<lparr>messageBuffer := [[CHR ''['', CHR ''2'', CHR '','', CHR 0x22, CHR ''m'', CHR ''1'', CHR 0x22,
                         CHR '','', CHR 0x22, CHR ''H'', CHR ''e'', CHR ''a'', CHR ''r'', CHR ''t'',
                         CHR ''b'', CHR ''e'', CHR ''a'', CHR ''t'', CHR 0x22, CHR '','',
                         CHR ''{'', CHR ''}'', CHR '']'']]\<rparr>"


text \<open>The proxy after the client \<^verbatim>\<open>CP1\<close> has connected on socket 7.\<close>

definition proxy_one :: OcppProxy where
  "proxy_one = proxy_run json_decode (\<lambda>_. False) proxy_two [Connection 7 ''ocpp1.6'' request_auth]"






section \<open>Relations between the states of a session\<close>

text \<open>
  \<open>calls_kept s s'\<close>: if the session is still registered in \<open>s'\<close>, it was registered in
  \<open>s\<close> and every client CALL registered in \<open>s\<close> is still registered in \<open>s'\<close>.
\<close>

definition calls_kept :: "session \<Rightarrow> session \<Rightarrow> bool" where
  "calls_kept s s' =
     (registered s' \<longrightarrow> registered s \<and> clientCallIds (router s) \<subseteq> clientCallIds (router s'))"

text \<open>A link that counts as connected holds a socket.\<close>

definition link_ok :: "upstream \<Rightarrow> bool" where
  "link_ok u = (isConnected u \<longrightarrow> ws u \<noteq> None)"

section \<open>The back-off schedule\<close>

text \<open>
  The delay of the specification for the attempt \<open>n\<close>, counted from 1:
  \<open>min (5000 \<cdot> 2^(n - 1)) 60000\<close> milliseconds.
\<close>

definition spec_delay :: "nat \<Rightarrow> nat" where
  "spec_delay n = min (5000 * 2 ^ (n - 1)) 60000"

text \<open>The delays of the timers armed in a list of effects, in order.\<close>

definition timeouts :: "link_event list \<Rightarrow> nat list" where
  "timeouts evs = concat (map (\<lambda>e. case e of SetTimeout d \<Rightarrow> [d] | _ \<Rightarrow> []) evs)"

text \<open>
  A link whose every connection attempt fails: the socket closes, the timer that the
  \<^verbatim>\<open>close\<close> handler armed fires and opens the next socket, at most \<open>n\<close> times, until no
  timer is pending.
\<close>

fun failing :: "nat \<Rightarrow> upstream \<Rightarrow> upstream \<times> link_event list" where
  "failing 0 u = (u, [])"
| "failing (Suc n) u =
     (case ws_on_close u of
        (u1, ev1) \<Rightarrow>
          if can_fire u1 then
            (case timer_fired False u1 of
               (u2, ev2) \<Rightarrow> (case failing n u2 of (u3, ev3) \<Rightarrow> (u3, ev1 @ ev2 @ ev3)))
          else (u1, ev1))"

section \<open>The registry holds one session per client\<close>

text \<open>
  \<open>unique_clients\<close>: no socket has two entries in the registry, and no two entries have
  the same client ID.
\<close>

definition unique_clients :: "OcppProxy \<Rightarrow> bool" where
  "unique_clients this =
     (distinct (map fst (clientConnections this))
      \<and> distinct (map (\<lambda>p. clientId (snd p)) (clientConnections this)))"

text \<open>The path of a request, as \<open>handleClientConnection\<close> reads it.\<close>

definition rawPath :: "request \<Rightarrow> string" where
  "rawPath req = (if truthy (url req) then the (url req) else ''/'')"


text \<open>
  \<open>sessions_ok\<close>: every session of the registry is registered, and each of its links
  that counts as connected holds a socket.
\<close>

definition sessions_ok :: "OcppProxy \<Rightarrow> bool" where
  "sessions_ok this =
     list_all (\<lambda>p. registered (snd p) \<and> list_all link_ok (upstreams (snd p)))
       (clientConnections this)"

section \<open>The parser\<close>

lemma parseMessage_Some_iff:
  "(fst (parseMessage J data) = Some m)
     = (\<exists>xs. J data = Some (JArray xs) \<and> 2 \<le> length xs
             \<and> m = \<lparr>raw = data, type = xs ! 0, messageId = xs ! 1, parsed = xs\<rparr>)"
  by (auto simp: parseMessage_def split: option.splits json.splits)

lemma parseMessage_None_iff:
  "(fst (parseMessage J data) = None) = (\<not> (\<exists>xs. J data = Some (JArray xs) \<and> 2 \<le> length xs))"
  by (auto simp: parseMessage_def split: option.splits json.splits)

lemma parseMessage_events:
  "snd (parseMessage J data)
     = (if J data = None then [Log Error ''Failed to parse OCPP message: '' []] else [])"
  by (auto simp: parseMessage_def split: option.splits json.splits)


lemma parseMessage_no_Link: "Link k e \<notin> set (snd (parseMessage J data))"
  by (simp add: parseMessage_events)

text \<open>Concrete frames, decoded by the reference decoder.\<close>

lemma decode_5_7: \<open>json_decode ''[5,7]'' = Some (JArray [JNumber 5, JNumber 7])\<close>
  by code_simp

lemma decode_call_m1:
  \<open>json_decode ''[2,"m1","Heartbeat",{}]''
     = Some (JArray [JNumber 2, JString ''m1'', JString ''Heartbeat'', JObject []])\<close>
  by code_simp


lemma decode_hello: "json_decode ''hello'' = None"
  by code_simp



lemma parse_hello:
  "parseMessage json_decode ''hello'' = (None, [Log Error ''Failed to parse OCPP message: '' []])"
  by (simp add: parseMessage_def decode_hello)

text \<open>
  Claim C2, as stated: the parser produces a message only for a frame that decodes to
  an array of length at least 2 whose first element is an integer in {2, 3, 4} and
  whose second element is a string.  The program does not test the two elements: the
  frame \<^verbatim>\<open>[5,7]\<close> is outside the accepted shape and is parsed to a message of type 5
  with the message ID 7.
\<close>

theorem parseMessage_shape_counterexample:
  \<open>fst (parseMessage json_decode ''[5,7]'')
     = Some \<lparr>raw = ''[5,7]'', type = JNumber 5, messageId = JNumber 7,
              parsed = [JNumber 5, JNumber 7]\<rparr>
   \<and> \<not> spec_accepted_shape (json_decode ''[5,7]'')\<close>
  by (simp add: parseMessage_def decode_5_7 spec_accepted_shape_def)

text \<open>
  Claim C2, amended: for every raw text frame, \<open>parseMessage\<close> produces a message if
  and only if the frame decodes to a JSON array of length at least 2, whatever the
  types of its elements; the produced type and message ID are the array's first two
  elements and the raw frame is kept; every frame of the specification's accepted
  shape produces a message, and a frame that is not JSON, not an array or a short
  array produces none.
\<close>

theorem parseMessage_accepts_every_array:
  "((fst (parseMessage J data) \<noteq> None) = (\<exists>xs. J data = Some (JArray xs) \<and> 2 \<le> length xs))
   \<and> (\<forall>m. fst (parseMessage J data) = Some m \<longrightarrow>
          (\<exists>xs. J data = Some (JArray xs) \<and> type m = xs ! 0 \<and> messageId m = xs ! 1
                \<and> raw m = data))
   \<and> (spec_accepted_shape (J data) \<longrightarrow> fst (parseMessage J data) \<noteq> None)
   \<and> (J data = None \<longrightarrow> fst (parseMessage J data) = None)
   \<and> (\<forall>v. J data = Some v \<and> (\<forall>xs. v \<noteq> JArray xs) \<longrightarrow> fst (parseMessage J data) = None)
   \<and> (\<forall>xs. J data = Some (JArray xs) \<and> length xs < 2 \<longrightarrow> fst (parseMessage J data) = None)"
proof (intro conjI allI impI)
  show "(fst (parseMessage J data) \<noteq> None) = (\<exists>xs. J data = Some (JArray xs) \<and> 2 \<le> length xs)"
    by (simp add: parseMessage_None_iff)
next
  fix m assume "fst (parseMessage J data) = Some m"
  then show "\<exists>xs. J data = Some (JArray xs) \<and> type m = xs ! 0 \<and> messageId m = xs ! 1 \<and> raw m = data"
    by (auto simp: parseMessage_Some_iff)
next
  assume "spec_accepted_shape (J data)"
  then have "\<exists>xs. J data = Some (JArray xs) \<and> 2 \<le> length xs"
    by (auto simp: spec_accepted_shape_def split: option.splits json.splits)
  then show "fst (parseMessage J data) \<noteq> None"
    by (simp add: parseMessage_None_iff)
next
  assume "J data = None"
  then show "fst (parseMessage J data) = None"
    by (simp add: parseMessage_None_iff)
next
  fix v assume "J data = Some v \<and> (\<forall>xs. v \<noteq> JArray xs)"
  then show "fst (parseMessage J data) = None"
    by (auto simp: parseMessage_None_iff)
next
  fix xs assume "J data = Some (JArray xs) \<and> length xs < 2"
  then show "fst (parseMessage J data) = None"
    by (auto simp: parseMessage_None_iff)
qed

theorem parseMessage_accepts_every_array_witness:
  \<open>spec_accepted_shape (json_decode ''[2,"m1","Heartbeat",{}]'')
   \<and> (\<exists>m. fst (parseMessage json_decode ''[2,"m1","Heartbeat",{}]'') = Some m
          \<and> type m = JNumber 2 \<and> messageId m = JString ''m1'')
   \<and> json_decode ''hello'' = None
   \<and> fst (parseMessage json_decode ''hello'') = None\<close>
proof -
  have shape: \<open>spec_accepted_shape (json_decode ''[2,"m1","Heartbeat",{}]'')\<close>
    by (simp add: decode_call_m1 spec_accepted_shape_def)
  from parseMessage_accepts_every_array [of json_decode \<open>''[2,"m1","Heartbeat",{}]''\<close>] shape
  have \<open>fst (parseMessage json_decode ''[2,"m1","Heartbeat",{}]'') \<noteq> None\<close>
    by blast
  then obtain m where m: \<open>fst (parseMessage json_decode ''[2,"m1","Heartbeat",{}]'') = Some m\<close>
    by blast
  with parseMessage_accepts_every_array [of json_decode \<open>''[2,"m1","Heartbeat",{}]''\<close>]
  have \<open>type m = JNumber 2 \<and> messageId m = JString ''m1''\<close>
    by (auto simp: decode_call_m1)
  moreover from parseMessage_accepts_every_array [of json_decode "''hello''"] decode_hello
  have "fst (parseMessage json_decode ''hello'') = None"
    by blast
  ultimately show ?thesis
    using shape m decode_hello by blast
qed


section \<open>Frames from an upstream link\<close>





lemma handleUpstreamMessage_unfold:
  "handleUpstreamMessage J s data n =
     (let message = fst (parseMessage J data); ev0 = snd (parseMessage J data);
          h = handleServerMessage (router s) message n;
          r1 = (if message \<noteq> None then fst h else router s);
          ev1 = (if message \<noteq> None then snd h else []);
          sr = shouldRelayResponseToClient r1 (messageId (the message)) n
                 (if registered s then Some (name (hd (upstreams s))) else None)
      in if message \<noteq> None \<and> (type (the message) = JNumber 3 \<or> type (the message) = JNumber 4) then
           (if registered s \<and> upstreams s = [] then (s\<lparr>router := r1\<rparr>, ev0 @ ev1, Some TypeError)
            else if \<not> fst sr then (s\<lparr>router := r1\<rparr>, ev0 @ ev1 @ snd sr, None)
            else (s\<lparr>router := r1\<rparr>, ev0 @ ev1 @ snd sr @ relay_to_client s data, None))
         else (s\<lparr>router := r1\<rparr>, ev0 @ ev1 @ relay_to_client s data, None))"
  by (simp add: handleUpstreamMessage_def Let_def split: prod.splits)






text \<open>
  Claim C10: a frame from an upstream link that fails to parse (it is not JSON, not an
  array, or an array shorter than 2) skips the router's bookkeeping and the reply
  filter: the session is left as it was, and the raw frame is written to the client
  exactly when the client socket is open.  The only other effect is the parser's error
  log for a frame that is not JSON.
\<close>

theorem unparseable_upstream_frame_is_relayed:
  assumes "fst (parseMessage J data) = None"
  shows "handleUpstreamMessage J s data serverName
           = (s, snd (parseMessage J data) @ (if clientWs s = OPEN then [ClientSend data] else []),
              None)"
  using assms
  by (cases "parseMessage J data") (simp add: handleUpstreamMessage_def relay_to_client_def)

theorem unparseable_upstream_frame_is_relayed_witness:
  "fst (parseMessage json_decode ''hello'') = None
   \<and> handleUpstreamMessage json_decode session_up ''hello'' ''SEC''
       = (session_up,
          [Log Error ''Failed to parse OCPP message: '' [], ClientSend ''hello''], None)"
proof -
  have h: "fst (parseMessage json_decode ''hello'') = None"
    by (simp add: parse_hello)
  have "clientWs session_up = OPEN"
    by (simp add: session_up_def session_of_def)
  with unparseable_upstream_frame_is_relayed [OF h, where s = session_up and serverName = "''SEC''"] h
  show ?thesis
    by (simp add: parse_hello)
qed






section \<open>Frames from the client\<close>


lemma find_upstream_SomeD:
  "find_upstream us n = Some (j, u) \<Longrightarrow> j < length us \<and> u = us ! j \<and> name u = n"
  unfolding find_upstream_def find_Some_iff
  by (auto simp: nth_enumerate_eq)

lemma send_events:
  "snd (send u data) =
     (if \<not> isConnected u \<or> ws u = None then [LLog Warn ''Cannot send - not connected'' []]
      else if ws u = Some CONNECTING then [WsSend data, LLog Error ''Send error: '' []]
      else [WsSend data])"
  by (simp add: send_def)










lemma handleClientMessage_upstreams:
  "upstreams (fst (handleClientMessage J nf t data)) = upstreams t"
  by (simp add: handleClientMessage_def split: option.splits prod.splits)

lemma handleUpstreamMessage_upstreams:
  "upstreams (fst (handleUpstreamMessage J s data n)) = upstreams s"
  by (simp add: handleUpstreamMessage_unfold Let_def)



lemma Link_WsSend_in_map:
  "(Link j (WsSend d) \<in> set (map (Link k) (snd (send u data))))
     = (j = k \<and> d = data \<and> isConnected u \<and> ws u \<noteq> None)"
  by (auto simp: send_def)






section \<open>Client CALLs stay registered while the session lives\<close>

lemma calls_kept_refl [simp]: "calls_kept s s"
  by (simp add: calls_kept_def)


lemma calls_kept_unregistered: "\<not> registered s' \<Longrightarrow> calls_kept s s'"
  by (simp add: calls_kept_def)








lemma then_do_fst:
  "fst (then_do r f) = (if snd (snd r) = None then fst (f (fst r)) else fst r)"
  by (cases r) (auto simp: then_do_def split: option.splits prod.splits)




lemma cleanup_unregistered: "\<not> registered (fst (cleanupClientConnection s))"
  by (simp add: cleanupClientConnection_def)







lemma link_open_fst:
  "fst (link_open J nf s k) =
     (let u = fst (ws_on_open (upstreams s ! k)); ev = snd (ws_on_open (upstreams s ! k))
      in if OnConnected (name u) \<in> set ev then fst (upstream_onConnected J nf (set_link s k u) k)
         else set_link s k u)"
  by (simp add: link_open_def then_do_fst Let_def split: prod.splits)



lemma link_close_fst:
  "fst (link_close nf s k) =
     (let u1 = fst (ws_on_close_begin (upstreams s ! k));
          ev1 = snd (ws_on_close_begin (upstreams s ! k));
          s2 = (if OnDisconnected (name u1) \<in> set ev1
                then fst (upstream_onDisconnected nf (set_link s k u1) k)
                else set_link s k u1);
          u3 = fst (ws_on_close_finish (upstreams s2 ! k));
          ev3 = snd (ws_on_close_finish (upstreams s2 ! k))
      in fst (gave_up_after (set_link s2 k u3) k ev3))"
  by (simp add: link_close_def Let_def split: prod.splits)


lemma link_timer_fst:
  "fst (link_timer throws s k) =
     fst (gave_up_after (set_link s k (fst (timer_fired throws (upstreams s ! k)))) k
            (snd (timer_fired throws (upstreams s ! k))))"
  by (simp add: link_timer_def split: prod.splits)






section \<open>Client CALLs\<close>

lemma in_concat_enumerate:
  "(x \<in> set (concat (map (\<lambda>(j, u). F j u) (enumerate n us))))
     = (\<exists>j<length us. x \<in> set (F (n + j) (us ! j)))"
proof (induction us arbitrary: n)
  case Nil
  then show ?case by simp
next
  case (Cons u us)
  have "(\<exists>j<length (u # us). x \<in> set (F (n + j) ((u # us) ! j)))
          = (x \<in> set (F n u) \<or> (\<exists>j<length us. x \<in> set (F (Suc n + j) (us ! j))))"
    by (auto simp: less_Suc_eq_0_disj)
  then show ?case
    using Cons.IH [of "Suc n"] by simp
qed







lemma link_idle_simps:
  "name (link_idle n) = n"
  "\<not> isConnected (link_idle n)"
  "ws (link_idle n) = Some CONNECTING"
  "\<not> wasEverConnected (link_idle n)"
  "reconnectAttempts (link_idle n) = 0"
  "maxReconnectAttempts (link_idle n) = 10"
  by (simp_all add: link_idle_def)



section \<open>The end of a session when every link is down\<close>

lemma cleanup_no_ClientClose: "ClientClose c r \<notin> set (snd (cleanupClientConnection s))"
  by (auto simp: cleanupClientConnection_def clear_def in_concat_enumerate)

lemma flush_no_ClientClose: "ClientClose c r \<notin> set (snd (flushMessageBufferIfAllConnected s))"
  by (simp add: flushMessageBufferIfAllConnected_def)

lemma flush_upstreams: "upstreams (fst (flushMessageBufferIfAllConnected s)) = upstreams s"
  by (simp add: flushMessageBufferIfAllConnected_def)

lemma flush_registered: "registered (fst (flushMessageBufferIfAllConnected s)) = registered s"
  by (simp add: flushMessageBufferIfAllConnected_def)

lemma all_down_iff:
  "(\<not> list_ex (\<lambda>u. \<not> isConnected u \<and> \<not> wasEverConnected u
                      \<and> reconnectAttempts u < maxReconnectAttempts u) us
    \<and> list_all (\<lambda>u. \<not> isConnected u) us)
   = (\<forall>u\<in>set us. \<not> isConnected u
                \<and> (wasEverConnected u \<or> maxReconnectAttempts u \<le> reconnectAttempts u))"
  by (auto simp: list_all_iff list_ex_iff not_less)

lemma checkUpstreamsStatus_unfold:
  "checkUpstreamsStatus s =
     (if \<not> registered s then (s, [])
      else if list_ex (\<lambda>u. \<not> isConnected u \<and> \<not> wasEverConnected u
                            \<and> reconnectAttempts u < maxReconnectAttempts u) (upstreams s) then
        (s, [Log Info ''Some upstream servers still attempting initial connection, keeping client alive'' []])
      else if list_all (\<lambda>u. \<not> isConnected u) (upstreams s) then
        (fst (cleanupClientConnection (s\<lparr>clientWs := closing (clientWs s)\<rparr>)),
         [Log Info ''All upstream servers disconnected - closing client connection'' [],
          ClientClose 1001 ''All upstream servers unavailable'']
           @ snd (cleanupClientConnection (s\<lparr>clientWs := closing (clientWs s)\<rparr>)))
      else (s, []))"
  by (simp add: checkUpstreamsStatus_def split: prod.splits)

lemma checkUpstreamsStatus_iff:
  assumes "registered s"
  shows "(ClientClose 1001 ''All upstream servers unavailable'' \<in> set (snd (checkUpstreamsStatus s)))
           = (\<forall>u\<in>set (upstreams s). \<not> isConnected u
                \<and> (wasEverConnected u \<or> maxReconnectAttempts u \<le> reconnectAttempts u))"
    and "(\<not> registered (fst (checkUpstreamsStatus s)))
           = (\<forall>u\<in>set (upstreams s). \<not> isConnected u
                \<and> (wasEverConnected u \<or> maxReconnectAttempts u \<le> reconnectAttempts u))"
  using assms all_down_iff [of "upstreams s"]
  by (auto simp: checkUpstreamsStatus_unfold cleanup_no_ClientClose cleanup_unregistered)

lemma checkUpstreamsStatus_ClientClose:
  "ClientClose c r \<in> set (snd (checkUpstreamsStatus s))
     \<Longrightarrow> c = 1001 \<and> r = ''All upstream servers unavailable''"
  by (auto simp: checkUpstreamsStatus_unfold cleanup_no_ClientClose split: if_splits)

lemma cleanup_effect:
  assumes "registered s"
  shows "list_all closed (upstreams (fst (cleanupClientConnection s)))"
    and "clientCallIds (router (fst (cleanupClientConnection s))) = {}"
    and "messageIdToServer (router (fst (cleanupClientConnection s))) = Map.empty"
  using assms
  by (simp_all add: cleanupClientConnection_def list_all_iff close_def clear_def)

text \<open>
  Claim C6: both callbacks that the session registers for a link's disconnection and
  for its give-up end with \<open>checkUpstreamsStatus\<close>.  In a registered session each of them
  closes the client socket with the code 1001 and the reason "All upstream servers
  unavailable" and unregisters the session (closing every link and clearing the
  router) if and only if every link is not connected and has either been connected
  before or exhausted its reconnection attempts.  No other close of the client socket
  happens there, and a link that has never connected and has attempts left keeps the
  session registered.
\<close>

theorem session_closed_iff_all_links_down:
  assumes "registered s"
  shows "((ClientClose 1001 ''All upstream servers unavailable''
              \<in> set (snd (upstream_onDisconnected nf s k)))
            = (\<forall>u\<in>set (upstreams s). \<not> isConnected u
                 \<and> (wasEverConnected u \<or> maxReconnectAttempts u \<le> reconnectAttempts u)))
         \<and> ((\<not> registered (fst (upstream_onDisconnected nf s k)))
            = (\<forall>u\<in>set (upstreams s). \<not> isConnected u
                 \<and> (wasEverConnected u \<or> maxReconnectAttempts u \<le> reconnectAttempts u)))
         \<and> ((ClientClose 1001 ''All upstream servers unavailable''
              \<in> set (snd (upstream_onGaveUp s k)))
            = (\<forall>u\<in>set (upstreams s). \<not> isConnected u
                 \<and> (wasEverConnected u \<or> maxReconnectAttempts u \<le> reconnectAttempts u)))
         \<and> ((\<not> registered (fst (upstream_onGaveUp s k)))
            = (\<forall>u\<in>set (upstreams s). \<not> isConnected u
                 \<and> (wasEverConnected u \<or> maxReconnectAttempts u \<le> reconnectAttempts u)))
         \<and> (\<forall>c r. ClientClose c r \<in> set (snd (upstream_onDisconnected nf s k))
                     \<or> ClientClose c r \<in> set (snd (upstream_onGaveUp s k))
                  \<longrightarrow> c = 1001 \<and> r = ''All upstream servers unavailable'')
         \<and> ((\<exists>u\<in>set (upstreams s). \<not> wasEverConnected u
                 \<and> reconnectAttempts u < maxReconnectAttempts u)
              \<longrightarrow> registered (fst (upstream_onDisconnected nf s k))
                  \<and> registered (fst (upstream_onGaveUp s k)))
         \<and> ((\<forall>u\<in>set (upstreams s). \<not> isConnected u
                 \<and> (wasEverConnected u \<or> maxReconnectAttempts u \<le> reconnectAttempts u))
              \<longrightarrow> list_all closed (upstreams (fst (upstream_onDisconnected nf s k)))
                  \<and> clientCallIds (router (fst (upstream_onDisconnected nf s k))) = {}
                  \<and> list_all closed (upstreams (fst (upstream_onGaveUp s k)))
                  \<and> clientCallIds (router (fst (upstream_onGaveUp s k))) = {})"
proof -
  let ?down = "\<forall>u\<in>set (upstreams s). \<not> isConnected u
                 \<and> (wasEverConnected u \<or> maxReconnectAttempts u \<le> reconnectAttempts u)"
  let ?f = "fst (flushMessageBufferIfAllConnected s)"
  have dfst: "fst (upstream_onDisconnected nf s k) = fst (checkUpstreamsStatus s)"
    and dsnd: "snd (upstream_onDisconnected nf s k)
                 = snd (checkUpstreamsStatus s)
                   @ (if nf then [Notify ''disconnectedFromUpstream''
                                    [clientId s, name (upstreams s ! k)]] else [])"
    by (simp_all add: upstream_onDisconnected_def split: prod.splits)
  have gfst: "fst (upstream_onGaveUp s k) = fst (checkUpstreamsStatus ?f)"
    and gsnd: "snd (upstream_onGaveUp s k)
                 = snd (flushMessageBufferIfAllConnected s) @ snd (checkUpstreamsStatus ?f)"
    by (simp_all add: upstream_onGaveUp_def split: prod.splits)
  have rf: "registered ?f" and uf: "upstreams ?f = upstreams s"
    using assms by (simp_all add: flush_registered flush_upstreams)
  have A: "(ClientClose 1001 ''All upstream servers unavailable''
              \<in> set (snd (upstream_onDisconnected nf s k))) = ?down"
    using checkUpstreamsStatus_iff(1) [OF assms] by (simp add: dsnd)
  have B: "(\<not> registered (fst (upstream_onDisconnected nf s k))) = ?down"
    using checkUpstreamsStatus_iff(2) [OF assms] by (simp add: dfst)
  have C: "(ClientClose 1001 ''All upstream servers unavailable''
              \<in> set (snd (upstream_onGaveUp s k))) = ?down"
    using checkUpstreamsStatus_iff(1) [OF rf] by (simp add: gsnd uf flush_no_ClientClose)
  have D: "(\<not> registered (fst (upstream_onGaveUp s k))) = ?down"
    using checkUpstreamsStatus_iff(2) [OF rf] by (simp add: gfst uf)
  have E: "\<forall>c r. ClientClose c r \<in> set (snd (upstream_onDisconnected nf s k))
                     \<or> ClientClose c r \<in> set (snd (upstream_onGaveUp s k))
                  \<longrightarrow> c = 1001 \<and> r = ''All upstream servers unavailable''"
    using checkUpstreamsStatus_ClientClose
    by (auto simp: dsnd gsnd flush_no_ClientClose)
  have F: "(\<exists>u\<in>set (upstreams s). \<not> wasEverConnected u
                 \<and> reconnectAttempts u < maxReconnectAttempts u)
              \<longrightarrow> registered (fst (upstream_onDisconnected nf s k))
                  \<and> registered (fst (upstream_onGaveUp s k))"
    using B D by (metis not_less)
  have G: "?down
              \<longrightarrow> list_all closed (upstreams (fst (upstream_onDisconnected nf s k)))
                  \<and> clientCallIds (router (fst (upstream_onDisconnected nf s k))) = {}
                  \<and> list_all closed (upstreams (fst (upstream_onGaveUp s k)))
                  \<and> clientCallIds (router (fst (upstream_onGaveUp s k))) = {}"
  proof
    assume down: ?down
    have c1: "fst (checkUpstreamsStatus s)
                = fst (cleanupClientConnection (s\<lparr>clientWs := closing (clientWs s)\<rparr>))"
      using assms down all_down_iff [of "upstreams s"] by (simp add: checkUpstreamsStatus_unfold)
    have c2: "fst (checkUpstreamsStatus ?f)
                = fst (cleanupClientConnection (?f\<lparr>clientWs := closing (clientWs ?f)\<rparr>))"
      using rf uf down all_down_iff [of "upstreams s"] by (simp add: checkUpstreamsStatus_unfold)
    show "list_all closed (upstreams (fst (upstream_onDisconnected nf s k)))
            \<and> clientCallIds (router (fst (upstream_onDisconnected nf s k))) = {}
            \<and> list_all closed (upstreams (fst (upstream_onGaveUp s k)))
            \<and> clientCallIds (router (fst (upstream_onGaveUp s k))) = {}"
      using assms rf cleanup_effect(1,2) [of "s\<lparr>clientWs := closing (clientWs s)\<rparr>"]
        cleanup_effect(1,2) [of "?f\<lparr>clientWs := closing (clientWs ?f)\<rparr>"]
      by (simp add: dfst gfst c1 c2)
  qed
  show ?thesis
    by (intro conjI A B C D E F G)
qed


lemma session_lost_simps:
  "registered session_lost"
  "upstreams session_lost = [link_lost ''PRI'', link_lost ''SEC'']"
  "registered session_waiting"
  "upstreams session_waiting = [link_lost ''PRI'', link_idle ''SEC'']"
  by (simp_all add: session_lost_def session_waiting_def session_of_def)

lemma link_lost_simps:
  "name (link_lost n) = n"
  "\<not> isConnected (link_lost n)"
  "wasEverConnected (link_lost n)"
  "ws (link_lost n) = Some CLOSED"
  by (simp_all add: link_lost_def link_up_def link_idle_def)

theorem session_closed_iff_all_links_down_witness:
  "registered session_lost
   \<and> ClientClose 1001 ''All upstream servers unavailable''
       \<in> set (snd (upstream_onDisconnected False session_lost 1))
   \<and> \<not> registered (fst (upstream_onDisconnected False session_lost 1))
   \<and> registered session_waiting
   \<and> ClientClose 1001 ''All upstream servers unavailable''
       \<notin> set (snd (upstream_onDisconnected False session_waiting 0))
   \<and> registered (fst (upstream_onDisconnected False session_waiting 0))"
proof -
  have r1: "registered session_lost" and r2: "registered session_waiting"
    by (simp_all add: session_lost_simps)
  note T1 = session_closed_iff_all_links_down [OF r1, where nf = False and k = 1]
  note T2 = session_closed_iff_all_links_down [OF r2, where nf = False and k = 0]
  have a: "ClientClose 1001 ''All upstream servers unavailable''
             \<in> set (snd (upstream_onDisconnected False session_lost 1))"
    using T1 [THEN conjunct1] by (simp add: session_lost_simps link_lost_simps)
  have b: "\<not> registered (fst (upstream_onDisconnected False session_lost 1))"
    using T1 [THEN conjunct2, THEN conjunct1] by (simp add: session_lost_simps link_lost_simps)
  have c: "ClientClose 1001 ''All upstream servers unavailable''
             \<notin> set (snd (upstream_onDisconnected False session_waiting 0))"
    using T2 [THEN conjunct1]
    by (simp add: session_lost_simps link_lost_simps link_idle_simps)
  have d: "registered (fst (upstream_onDisconnected False session_waiting 0))"
    using T2 [THEN conjunct2, THEN conjunct1]
    by (simp add: session_lost_simps link_lost_simps link_idle_simps)
  show ?thesis
    using r1 r2 a b c d by simp
qed


section \<open>Reconnection with capped exponential back-off\<close>

lemma spec_delay_values:
  "map spec_delay [1..<11] = [5000, 10000, 20000, 40000, 60000, 60000, 60000, 60000, 60000, 60000]"
  by (simp add: spec_delay_def upt_rec [of _ 11] upt_rec [of _ 10] upt_rec [of _ 9])

lemma scheduleReconnect_schedules:
  assumes "\<not> closed u" and "reconnectTimer u = None"
      and "reconnectAttempts u < maxReconnectAttempts u"
  shows "scheduleReconnect u
           = (u\<lparr>reconnectAttempts := reconnectAttempts u + 1,
                reconnectTimer := Some (spec_delay (reconnectAttempts u + 1))\<rparr>,
              [LLog Info ''Reconnecting in ...s (attempt .../...)...''
                 [JNumber (of_nat (spec_delay (reconnectAttempts u + 1)) / 1000),
                  JNumber (of_nat (reconnectAttempts u + 1)),
                  JNumber (of_nat (maxReconnectAttempts u))],
               SetTimeout (spec_delay (reconnectAttempts u + 1))])"
  using assms by (simp add: scheduleReconnect_def spec_delay_def Let_def)

lemma scheduleReconnect_gives_up:
  assumes "\<not> closed u" and "reconnectTimer u = None"
      and "maxReconnectAttempts u \<le> reconnectAttempts u"
  shows "scheduleReconnect u
           = (u, LLog Error ''Max reconnection attempts reached'' []
                 # (if onGaveUpCallback u then [OnGaveUp (name u)] else []))"
  using assms by (simp add: scheduleReconnect_def)

lemma timeouts_simps [simp]:
  "timeouts [] = []"
  "timeouts (SetTimeout d # evs) = d # timeouts evs"
  "timeouts (LLog l t a # evs) = timeouts evs"
  "timeouts (WsConnect x y z # evs) = timeouts evs"
  "timeouts (OnGaveUp n # evs) = timeouts evs"
  "timeouts (OnDisconnected n # evs) = timeouts evs"
  "timeouts (evs @ evs') = timeouts evs @ timeouts evs'"
  by (simp_all add: timeouts_def)

lemma failing_Suc:
  "failing (Suc n) u =
     (if can_fire (fst (ws_on_close u)) then
        (fst (failing n (fst (timer_fired False (fst (ws_on_close u))))),
         snd (ws_on_close u) @ snd (timer_fired False (fst (ws_on_close u)))
           @ snd (failing n (fst (timer_fired False (fst (ws_on_close u))))))
      else ws_on_close u)"
  by (simp split: prod.splits)

lemma ws_on_close_unfold:
  "ws_on_close u =
     (fst (ws_on_close_finish (fst (ws_on_close_begin u))),
      snd (ws_on_close_begin u) @ snd (ws_on_close_finish (fst (ws_on_close_begin u))))"
  by (simp add: ws_on_close_def split: prod.splits)

lemma timer_fired_reconnects:
  "\<not> isConnected v \<Longrightarrow>
   timer_fired False v
     = (v\<lparr>reconnectTimer := None, ws := Some CONNECTING\<rparr>,
        [LLog Debug ''Connecting to ...'' [JString (getUrl v)],
         WsConnect (getUrl v) (upstream.protocol v)
           (if truthy (clientIp v)
            then [(''X-Forwarded-For'', the (clientIp v)), (''X-Real-IP'', the (clientIp v))]
            else [])])"
  by (simp add: timer_fired_def connect_def getUrl_def Let_def)

lemma ws_on_close_reschedules:
  assumes "\<not> closed u" and "reconnectTimer u = None"
      and "reconnectAttempts u < maxReconnectAttempts u"
  shows "ws_on_close u
           = (u\<lparr>ws := map_option (\<lambda>_. CLOSED) (ws u), isConnected := False,
                reconnectAttempts := reconnectAttempts u + 1,
                reconnectTimer := Some (spec_delay (reconnectAttempts u + 1))\<rparr>,
              LLog Warn ''Disconnected'' []
                # (if onDisconnectedCallback u then [OnDisconnected (name u)] else [])
                @ [LLog Info ''Reconnecting in ...s (attempt .../...)...''
                     [JNumber (of_nat (spec_delay (reconnectAttempts u + 1)) / 1000),
                      JNumber (of_nat (reconnectAttempts u + 1)),
                      JNumber (of_nat (maxReconnectAttempts u))],
                   SetTimeout (spec_delay (reconnectAttempts u + 1))])"
  using assms
    scheduleReconnect_schedules [of "u\<lparr>ws := map_option (\<lambda>_. CLOSED) (ws u), isConnected := False\<rparr>"]
  by (simp add: ws_on_close_unfold ws_on_close_begin_def ws_on_close_finish_def)

lemma ws_on_close_gives_up:
  assumes "\<not> closed u" and "reconnectTimer u = None"
      and "maxReconnectAttempts u \<le> reconnectAttempts u"
  shows "ws_on_close u
           = (u\<lparr>ws := map_option (\<lambda>_. CLOSED) (ws u), isConnected := False\<rparr>,
              LLog Warn ''Disconnected'' []
                # (if onDisconnectedCallback u then [OnDisconnected (name u)] else [])
                @ LLog Error ''Max reconnection attempts reached'' []
                # (if onGaveUpCallback u then [OnGaveUp (name u)] else []))"
  using assms
    scheduleReconnect_gives_up [of "u\<lparr>ws := map_option (\<lambda>_. CLOSED) (ws u), isConnected := False\<rparr>"]
  by (simp add: ws_on_close_unfold ws_on_close_begin_def ws_on_close_finish_def)

lemma failing_schedule:
  assumes "maxReconnectAttempts u = 10" and "\<not> closed u" and "reconnectTimer u = None"
      and "onGaveUpCallback u"
      and "reconnectAttempts u \<le> 10" and "10 - reconnectAttempts u < n"
  shows "timeouts (snd (failing n u)) = map spec_delay [reconnectAttempts u + 1..<11]
         \<and> count_list (snd (failing n u)) (OnGaveUp (name u)) = 1
         \<and> \<not> closed (fst (failing n u))
         \<and> reconnectTimer (fst (failing n u)) = None
         \<and> reconnectAttempts (fst (failing n u)) = 10"
  using assms
proof (induction n arbitrary: u)
  case 0
  then show ?case by simp
next
  case (Suc n)
  show ?case
  proof (cases "reconnectAttempts u < 10")
    case False
    with Suc.prems have a: "reconnectAttempts u = 10" by simp
    show ?thesis
      using Suc.prems a
      by (simp add: failing_Suc ws_on_close_gives_up can_fire_def del: failing.simps)
  next
    case True
    let ?a = "reconnectAttempts u + 1"
    let ?u3 = "u\<lparr>ws := map_option (\<lambda>_. CLOSED) (ws u), isConnected := False,
                reconnectAttempts := ?a, reconnectTimer := Some (spec_delay ?a)\<rparr>
               \<lparr>reconnectTimer := None, ws := Some CONNECTING\<rparr>"
    have ih: "timeouts (snd (failing n ?u3)) = map spec_delay [reconnectAttempts ?u3 + 1..<11]
         \<and> count_list (snd (failing n ?u3)) (OnGaveUp (name ?u3)) = 1
         \<and> \<not> closed (fst (failing n ?u3))
         \<and> reconnectTimer (fst (failing n ?u3)) = None
         \<and> reconnectAttempts (fst (failing n ?u3)) = 10"
      by (rule Suc.IH) (use Suc.prems True in simp_all)
    have up: "[Suc (reconnectAttempts u)..<11]
                = Suc (reconnectAttempts u) # [Suc (Suc (reconnectAttempts u))..<11]"
      using True by (intro upt_conv_Cons) simp
    show ?thesis
      using ih Suc.prems True
      by (simp add: failing_Suc ws_on_close_reschedules timer_fired_reconnects can_fire_def up
            del: failing.simps)
  qed
qed


text \<open>
  Claim C7: on a link that is not closed and has no pending timer (the constructor sets
  \<open>maxReconnectAttempts\<close> to 10), \<open>scheduleReconnect\<close> after \<open>n - 1 < 10\<close> attempts makes
  the attempt \<open>n\<close> and arms the timer with \<open>min (5000 \<cdot> 2^(n - 1)) 60000\<close> milliseconds;
  after 10 attempts it arms no timer, leaves the link unchanged (so \<open>closed\<close> stays
  false) and calls the give-up callback exactly once.  Every timer it arms belongs to an
  attempt between 1 and 10.  The delays of the attempts 1 to 10 are 5000, 10000, 20000,
  40000 and six times 60000.  On a link whose every attempt fails, the timers armed
  are exactly these ten, in this order, and the give-up callback is called once.
\<close>

theorem reconnect_backoff_schedule:
  assumes "maxReconnectAttempts u = 10" and "\<not> closed u" and "reconnectTimer u = None"
  shows "(reconnectAttempts u < 10 \<longrightarrow>
            scheduleReconnect u
              = (u\<lparr>reconnectAttempts := reconnectAttempts u + 1,
                   reconnectTimer := Some (spec_delay (reconnectAttempts u + 1))\<rparr>,
                 [LLog Info ''Reconnecting in ...s (attempt .../...)...''
                    [JNumber (of_nat (spec_delay (reconnectAttempts u + 1)) / 1000),
                     JNumber (of_nat (reconnectAttempts u + 1)),
                     JNumber (of_nat (maxReconnectAttempts u))],
                  SetTimeout (spec_delay (reconnectAttempts u + 1))]))
         \<and> (10 \<le> reconnectAttempts u \<longrightarrow>
              scheduleReconnect u
                = (u, LLog Error ''Max reconnection attempts reached'' []
                      # (if onGaveUpCallback u then [OnGaveUp (name u)] else [])))
         \<and> (\<forall>d. SetTimeout d \<in> set (snd (scheduleReconnect u)) \<longrightarrow>
                  1 \<le> reconnectAttempts (fst (scheduleReconnect u))
                  \<and> reconnectAttempts (fst (scheduleReconnect u)) \<le> 10
                  \<and> d = spec_delay (reconnectAttempts (fst (scheduleReconnect u))))
         \<and> map spec_delay [1..<11]
             = [5000, 10000, 20000, 40000, 60000, 60000, 60000, 60000, 60000, 60000]
         \<and> (onGaveUpCallback u \<and> reconnectAttempts u \<le> 10 \<longrightarrow>
              (\<forall>n. 10 - reconnectAttempts u < n \<longrightarrow>
                 timeouts (snd (failing n u)) = map spec_delay [reconnectAttempts u + 1..<11]
                 \<and> count_list (snd (failing n u)) (OnGaveUp (name u)) = 1
                 \<and> \<not> closed (fst (failing n u))))"
proof -
  have A: "reconnectAttempts u < 10 \<longrightarrow>
            scheduleReconnect u
              = (u\<lparr>reconnectAttempts := reconnectAttempts u + 1,
                   reconnectTimer := Some (spec_delay (reconnectAttempts u + 1))\<rparr>,
                 [LLog Info ''Reconnecting in ...s (attempt .../...)...''
                    [JNumber (of_nat (spec_delay (reconnectAttempts u + 1)) / 1000),
                     JNumber (of_nat (reconnectAttempts u + 1)),
                     JNumber (of_nat (maxReconnectAttempts u))],
                  SetTimeout (spec_delay (reconnectAttempts u + 1))])"
    using scheduleReconnect_schedules [OF assms(2,3)] assms(1) by simp
  have B: "10 \<le> reconnectAttempts u \<longrightarrow>
              scheduleReconnect u
                = (u, LLog Error ''Max reconnection attempts reached'' []
                      # (if onGaveUpCallback u then [OnGaveUp (name u)] else []))"
    using scheduleReconnect_gives_up [OF assms(2,3)] assms(1) by simp
  have C: "\<forall>d. SetTimeout d \<in> set (snd (scheduleReconnect u)) \<longrightarrow>
                  1 \<le> reconnectAttempts (fst (scheduleReconnect u))
                  \<and> reconnectAttempts (fst (scheduleReconnect u)) \<le> 10
                  \<and> d = spec_delay (reconnectAttempts (fst (scheduleReconnect u)))"
  proof (cases "reconnectAttempts u < 10")
    case True
    with A show ?thesis by simp
  next
    case False
    with B show ?thesis by simp
  qed
  have E: "onGaveUpCallback u \<and> reconnectAttempts u \<le> 10 \<longrightarrow>
              (\<forall>n. 10 - reconnectAttempts u < n \<longrightarrow>
                 timeouts (snd (failing n u)) = map spec_delay [reconnectAttempts u + 1..<11]
                 \<and> count_list (snd (failing n u)) (OnGaveUp (name u)) = 1
                 \<and> \<not> closed (fst (failing n u)))"
    using failing_schedule [OF assms] by simp
  show ?thesis
    by (intro conjI A B C spec_delay_values E)
qed

theorem reconnect_backoff_schedule_witness:
  "maxReconnectAttempts (link_idle ''PRI'') = 10
   \<and> \<not> closed (link_idle ''PRI'')
   \<and> reconnectTimer (link_idle ''PRI'') = None
   \<and> timeouts (snd (scheduleReconnect (link_idle ''PRI''))) = [5000]
   \<and> timeouts (snd (failing 11 (link_idle ''PRI'')))
       = [5000, 10000, 20000, 40000, 60000, 60000, 60000, 60000, 60000, 60000]
   \<and> count_list (snd (failing 11 (link_idle ''PRI''))) (OnGaveUp ''PRI'') = 1
   \<and> \<not> closed (fst (failing 11 (link_idle ''PRI'')))"
proof -
  have h: "maxReconnectAttempts (link_idle ''PRI'') = 10" "\<not> closed (link_idle ''PRI'')"
    "reconnectTimer (link_idle ''PRI'') = None"
    by (simp_all add: link_idle_def)
  have f: "onGaveUpCallback (link_idle ''PRI'')" "reconnectAttempts (link_idle ''PRI'') = 0"
    "name (link_idle ''PRI'') = ''PRI''"
    by (simp_all add: link_idle_def)
  note T = reconnect_backoff_schedule [OF h]
  have one: "timeouts (snd (scheduleReconnect (link_idle ''PRI''))) = [5000]"
    using T [THEN conjunct1] by (simp add: f spec_delay_def)
  have run: "timeouts (snd (failing 11 (link_idle ''PRI''))) = map spec_delay [1..<11]
             \<and> count_list (snd (failing 11 (link_idle ''PRI''))) (OnGaveUp ''PRI'') = 1
             \<and> \<not> closed (fst (failing 11 (link_idle ''PRI'')))"
    using T [THEN conjunct2, THEN conjunct2, THEN conjunct2, THEN conjunct2, THEN mp,
             THEN spec, of 11]
    by (simp add: f)
  show ?thesis
    using h one run T [THEN conjunct2, THEN conjunct2, THEN conjunct2, THEN conjunct1]
    by simp
qed


section \<open>The headers of the upstream sockets\<close>

lemma match_path_CP1: "match_path ''/CP1'' = Some ''CP1''"
  by (simp add: match_path_def is_id_char_def)

lemma url_request_auth: "url request_auth = Some ''/CP1''"
  by (simp add: request_auth_def)

lemma client_ip_request_auth: "client_ip request_auth = Some ''10.0.0.7''"
  by (simp add: client_ip_def request_auth_def header_def truthy_def trim_def)

lemma forwardedHeaders_request_auth:
  "forwardedHeaders request_auth = [(''Authorization'', ''Basic abc''), (''User-Agent'', ''CP/1.0'')]"
  by (simp add: forwardedHeaders_def request_auth_def header_def truthy_def)

lemma scheduleReconnect_no_WsConnect: "WsConnect a p hs \<notin> set (snd (scheduleReconnect u))"
  by (simp add: scheduleReconnect_def Let_def)

lemma connect_headers:
  assumes "WsConnect a p hs \<in> set (snd (connect t u))"
  shows "fst ` set hs \<subseteq> {''X-Forwarded-For'', ''X-Real-IP''}"
  using assms scheduleReconnect_no_WsConnect [of a p hs u]
  by (auto simp: connect_def Let_def split: if_splits prod.splits)

lemma cleanup_no_WsConnect:
  "Link k (WsConnect a p hs) \<notin> set (snd (cleanupClientConnection s))"
  by (auto simp: cleanupClientConnection_def clear_def in_concat_enumerate close_def)

lemma close_existing_no_WsConnect:
  "(w', Link k (WsConnect a p hs)) \<notin> set (snd (close_existing this w cid))"
  using cleanup_no_WsConnect
  by (auto simp: close_existing_def cleanupClientConnection_of_def tagged_def
        split: option.splits prod.splits)

lemma start_link_headers:
  "WsConnect a p hs \<in> set (snd (start_link wsThrows u))
     \<Longrightarrow> fst ` set hs \<subseteq> {''X-Forwarded-For'', ''X-Real-IP''}"
  unfolding start_link_def Let_def by (rule connect_headers)

lemma started_headers:
  assumes "Link k (WsConnect a p hs)
             \<in> set (concat (map (\<lambda>(k, r). map (Link k) (snd r))
                               (enumerate 0 (map (start_link wsThrows) links))))"
  shows "fst ` set hs \<subseteq> {''X-Forwarded-For'', ''X-Real-IP''}"
proof -
  from assms obtain j where "j < length links"
    and "Link k (WsConnect a p hs) \<in> set (map (Link j) (snd (start_link wsThrows (links ! j))))"
    unfolding in_concat_enumerate by auto
  then have "WsConnect a p hs \<in> set (snd (start_link wsThrows (links ! j)))"
    by auto
  then show ?thesis by (rule start_link_headers)
qed

lemma accept_connection_headers:
  assumes "(w', Link k (WsConnect a p hs))
             \<in> set (snd (accept_connection wsThrows this w proto req cid))"
  shows "fst ` set hs \<subseteq> {''X-Forwarded-For'', ''X-Real-IP''}"
proof -
  let ?proto = "if proto \<noteq> [] then proto else ''ocpp1.6''"
  from assms close_existing_no_WsConnect [of w' k a p hs this w cid]
  have "Link k (WsConnect a p hs)
          \<in> set (concat (map (\<lambda>(k, r). map (Link k) (snd r))
                            (enumerate 0 (new_links wsThrows this ?proto req cid))))"
    by (auto simp: accept_connection_def Let_def tagged_def simp del: set_concat)
  then show ?thesis
    unfolding new_links_def by (rule started_headers)
qed

lemma handleClientConnection_headers:
  assumes "(w', Link k (WsConnect a p hs))
             \<in> set (snd (handleClientConnection wsThrows this w proto req))"
  shows "fst ` set hs \<subseteq> {''X-Forwarded-For'', ''X-Real-IP''}"
proof (cases "match_path (if truthy (url req) then the (url req) else ''/'')")
  case None
  with assms show ?thesis by (simp add: handleClientConnection_def Let_def)
next
  case (Some cid)
  with assms have "(w', Link k (WsConnect a p hs))
             \<in> set (snd (accept_connection wsThrows this w proto req cid))"
    by (simp add: handleClientConnection_def Let_def)
  then show ?thesis by (rule accept_connection_headers)
qed


text \<open>
  Claim C8: the upstream sockets are to be opened with the client's \<^verbatim>\<open>Authorization\<close>
  and \<^verbatim>\<open>User-Agent\<close> headers passed through.  \<open>handleClientConnection\<close> extracts them
  and passes them to the constructor of the link as a sixth argument; the constructor
  declares five parameters and \<open>connect\<close> builds the headers from the client's IP alone.
  For the request of \<^verbatim>\<open>CP1\<close> that carries both headers, both sockets are opened with
  \<^verbatim>\<open>X-Forwarded-For\<close> and \<^verbatim>\<open>X-Real-IP\<close> only; by \<open>handleClientConnection_headers\<close> this
  holds for every request.
\<close>

theorem forwarded_headers_are_dropped:
  "forwardedHeaders request_auth = [(''Authorization'', ''Basic abc''), (''User-Agent'', ''CP/1.0'')]
   \<and> snd (handleClientConnection (\<lambda>_. False) proxy_two 7 ''ocpp1.6'' request_auth)
       = [(7, Log Debug ''========================================'' []),
          (7, Log Debug ''New client connection: '' [JString ''CP1'']),
          (7, Log Debug ''Protocol: '' [JString ''ocpp1.6'']),
          (7, Log Debug ''========================================'' []),
          (7, Log Debug ''Client IP: '' [JString ''10.0.0.7'']),
          (7, Link 0 (LLog Debug ''Connecting to ...'' [JString ''ws://pri/CP1''])),
          (7, Link 0 (WsConnect ''ws://pri/CP1'' ''ocpp1.6''
                        [(''X-Forwarded-For'', ''10.0.0.7''), (''X-Real-IP'', ''10.0.0.7'')])),
          (7, Link 1 (LLog Debug ''Connecting to ...'' [JString ''ws://sec/CP1''])),
          (7, Link 1 (WsConnect ''ws://sec/CP1'' ''ocpp1.6''
                        [(''X-Forwarded-For'', ''10.0.0.7''), (''X-Real-IP'', ''10.0.0.7'')]))]"
  by (simp add: forwardedHeaders_request_auth handleClientConnection_def accept_connection_def
        match_path_CP1 client_ip_request_auth close_existing_def proxy_two_def new_OcppProxy_def
        truthy_def tagged_def start_link_def new_UpstreamConnection_def connect_def getUrl_def
        new_links_def
        onMessage_def onConnected_def onDisconnected_def onGaveUp_def Let_def
        url_request_auth)


section \<open>The pre-connect buffer\<close>

lemma buffered_frames:
  \<open>messageBuffer session_buffered_reply = [''[3,"m1",{}]'']\<close>
  \<open>messageBuffer session_buffered_call = [''[2,"m1","Heartbeat",{}]'']\<close>
  by (simp_all add: session_buffered_reply_def session_buffered_call_def)














lemma upstream_onGaveUp_fst:
  "fst (upstream_onGaveUp s k) = fst (checkUpstreamsStatus (fst (flushMessageBufferIfAllConnected s)))"
  by (simp add: upstream_onGaveUp_def split: prod.splits)





section \<open>One session per client ID\<close>

lemma handleClientMessage_clientId:
  "clientId (fst (handleClientMessage J nf s data)) = clientId s"
  by (simp add: handleClientMessage_def split: option.splits prod.splits)

lemma handleUpstreamMessage_clientId:
  "clientId (fst (handleUpstreamMessage J s data n)) = clientId s"
  by (simp add: handleUpstreamMessage_unfold Let_def)

lemma clientWs_on_message_clientId:
  "clientId (fst (clientWs_on_message J nf s msg)) = clientId s"
  by (simp add: clientWs_on_message_def handleClientMessage_clientId)

lemma route_buffered_clientId:
  "clientId (fst (route_buffered J nf s msgs)) = clientId s"
proof (induction msgs arbitrary: s)
  case Nil
  then show ?case by simp
next
  case (Cons msg msgs)
  show ?case
    using Cons.IH [of "fst (handleClientMessage J nf s msg)"]
    by (simp add: then_do_fst handleClientMessage_clientId)
qed

lemma sendBuffer_clientId: "clientId (fst (sendBufferToUpstream J nf s k)) = clientId s"
  by (simp add: sendBufferToUpstream_def then_do_fst route_buffered_clientId)

lemma flush_clientId: "clientId (fst (flushMessageBufferIfAllConnected s)) = clientId s"
  by (simp add: flushMessageBufferIfAllConnected_def)

lemma cleanup_clientId: "clientId (fst (cleanupClientConnection s)) = clientId s"
  by (simp add: cleanupClientConnection_def)

lemma checkUpstreamsStatus_clientId: "clientId (fst (checkUpstreamsStatus s)) = clientId s"
  by (simp add: checkUpstreamsStatus_unfold cleanup_clientId)

lemma upstream_onConnected_fst:
  "fst (upstream_onConnected J nf s k)
     = (if snd (snd (sendBufferToUpstream J nf s k)) = None
        then fst (flushMessageBufferIfAllConnected (fst (sendBufferToUpstream J nf s k)))
        else fst (sendBufferToUpstream J nf s k))"
  by (simp add: upstream_onConnected_def then_do_fst split: prod.splits)

lemma upstream_onConnected_clientId: "clientId (fst (upstream_onConnected J nf s k)) = clientId s"
  by (simp add: upstream_onConnected_fst flush_clientId sendBuffer_clientId)

lemma upstream_onDisconnected_fst:
  "fst (upstream_onDisconnected nf s k) = fst (checkUpstreamsStatus s)"
  by (simp add: upstream_onDisconnected_def split: prod.splits)

lemma upstream_onDisconnected_clientId: "clientId (fst (upstream_onDisconnected nf s k)) = clientId s"
  by (simp add: upstream_onDisconnected_fst checkUpstreamsStatus_clientId)

lemma upstream_onGaveUp_clientId: "clientId (fst (upstream_onGaveUp s k)) = clientId s"
  by (simp add: upstream_onGaveUp_fst checkUpstreamsStatus_clientId flush_clientId)

lemma set_link_clientId: "clientId (set_link s k u) = clientId s"
  by (simp add: set_link_def)

lemma gave_up_after_clientId: "clientId (fst (gave_up_after s k ev)) = clientId s"
  by (simp add: gave_up_after_def upstream_onGaveUp_clientId)

lemma link_open_clientId: "clientId (fst (link_open J nf s k)) = clientId s"
  by (simp add: link_open_fst Let_def upstream_onConnected_clientId set_link_clientId)

lemma link_message_clientId: "clientId (fst (link_message J s k data)) = clientId s"
  by (simp add: link_message_def handleUpstreamMessage_clientId)

lemma link_close_clientId: "clientId (fst (link_close nf s k)) = clientId s"
  by (simp add: link_close_fst Let_def gave_up_after_clientId set_link_clientId
        upstream_onDisconnected_clientId)

lemma link_timer_clientId: "clientId (fst (link_timer throws s k)) = clientId s"
  by (simp add: link_timer_fst gave_up_after_clientId set_link_clientId)

lemma clientWs_on_close_fst:
  "fst (clientWs_on_close nf s) = fst (cleanupClientConnection (s\<lparr>clientWs := CLOSED\<rparr>))"
  by (simp add: clientWs_on_close_def split: prod.splits)

lemma clientWs_on_close_clientId: "clientId (fst (clientWs_on_close nf s)) = clientId s"
  by (simp add: clientWs_on_close_fst cleanup_clientId)

lemma session_step_clientId: "clientId (fst (session_step J nf wsThrows s e)) = clientId s"
  by (cases e)
     (simp_all add: session_step_def drop_exn_def clientWs_on_message_clientId
        clientWs_on_close_clientId link_open_clientId link_message_clientId link_close_clientId
        link_timer_clientId)

subsection \<open>The registry as an insertion-ordered map\<close>

lemma Map_put_keys:
  "map fst (Map_put m w v) = (if w \<in> fst ` set m then map fst m else map fst m @ [w])"
  by (induction m) (auto simp: Map_put_def)

lemma replace_absent:
  "w \<notin> fst ` set m \<Longrightarrow> map (\<lambda>(k', v'). if k' = w then (k', v) else (k', v')) m = m"
  by (induction m) auto

lemma replace_ids:
  assumes "distinct (map fst m)" and "distinct (map (\<lambda>p. clientId (snd p)) m)"
      and "\<forall>p\<in>set m. fst p \<noteq> w \<longrightarrow> clientId (snd p) \<noteq> clientId v"
  shows "distinct (map (\<lambda>p. clientId (snd p))
                    (map (\<lambda>(k', v'). if k' = w then (k', v) else (k', v')) m))"
  using assms
proof (induction m)
  case Nil
  then show ?case by simp
next
  case (Cons p m)
  obtain k0 v0 where p: "p = (k0, v0)" by (cases p)
  show ?case
  proof (cases "k0 = w")
    case True
    with Cons.prems p have "w \<notin> fst ` set m" by auto
    then have same: "map (\<lambda>(k', v'). if k' = w then (k', v) else (k', v')) m = m"
      by (rule replace_absent)
    have "clientId (snd q) \<noteq> clientId v" if "q \<in> set m" for q
    proof -
      from that \<open>w \<notin> fst ` set m\<close> have "fst q \<noteq> w" by auto
      with Cons.prems(3) that show ?thesis by simp
    qed
    then have "clientId v \<notin> (\<lambda>p. clientId (snd p)) ` set m"
      by (metis (no_types, lifting) imageE)
    with Cons.prems True p same show ?thesis by simp
  next
    case False
    have ih: "distinct (map (\<lambda>p. clientId (snd p))
                    (map (\<lambda>(k', v'). if k' = w then (k', v) else (k', v')) m))"
      using Cons.prems by (intro Cons.IH) auto
    have "clientId v0 \<noteq> clientId v" using Cons.prems(3) False p by auto
    moreover have "clientId v0 \<notin> (\<lambda>p. clientId (snd p)) ` set m"
      using Cons.prems(2) p by auto
    ultimately have "clientId v0 \<notin> (\<lambda>p. clientId (snd p))
                       ` set (map (\<lambda>(k', v'). if k' = w then (k', v) else (k', v')) m)"
      by (auto split: if_splits)
    with ih False p show ?thesis by (simp add: image_image comp_def)
  qed
qed

lemma Map_put_unique:
  assumes "distinct (map fst m)" and "distinct (map (\<lambda>p. clientId (snd p)) m)"
      and "\<forall>p\<in>set m. fst p \<noteq> w \<longrightarrow> clientId (snd p) \<noteq> clientId v"
  shows "distinct (map fst (Map_put m w v))
         \<and> distinct (map (\<lambda>p. clientId (snd p)) (Map_put m w v))"
proof (cases "w \<in> fst ` set m")
  case True
  then show ?thesis
    using assms replace_ids [OF assms] by (simp add: Map_put_keys) (simp add: Map_put_def)
next
  case False
  have "clientId (snd q) \<noteq> clientId v" if "q \<in> set m" for q
  proof -
    from that False have "fst q \<noteq> w" by auto
    with assms(3) that show ?thesis by simp
  qed
  then have "clientId v \<notin> (\<lambda>p. clientId (snd p)) ` set m"
    by (metis (no_types, lifting) imageE)
  with False assms show ?thesis
    by (simp add: Map_put_def)
qed

lemma Map_remove_unique:
  assumes "distinct (map fst m)" and "distinct (map (\<lambda>p. clientId (snd p)) m)"
  shows "distinct (map fst (Map_remove m w))
         \<and> distinct (map (\<lambda>p. clientId (snd p)) (Map_remove m w))"
  using assms by (simp add: Map_remove_def distinct_map_filter)

lemma Map_remove_subset: "set (Map_remove m w) \<subseteq> set m"
  by (auto simp: Map_remove_def)

lemma on_session_fst:
  "fst (on_session this w f) =
     (case map_of (clientConnections this) w of
        None \<Rightarrow> this
      | Some s \<Rightarrow>
          this\<lparr>clientConnections :=
                 (if registered (fst (f s)) then Map_put (clientConnections this) w (fst (f s))
                  else Map_remove (clientConnections this) w)\<rparr>)"
  by (simp add: on_session_def split: option.splits prod.splits)

lemma on_session_unique:
  assumes "unique_clients this" and "\<And>s. clientId (fst (f s)) = clientId s"
  shows "unique_clients (fst (on_session this w f))"
proof (cases "map_of (clientConnections this) w")
  case None
  with assms(1) show ?thesis by (simp add: on_session_fst)
next
  case (Some s)
  let ?m = "clientConnections this"
  have d1: "distinct (map fst ?m)" and d2: "distinct (map (\<lambda>p. clientId (snd p)) ?m)"
    using assms(1) by (simp_all add: unique_clients_def)
  have mem: "(w, s) \<in> set ?m" using Some by (rule map_of_SomeD)
  have others: "\<forall>p\<in>set ?m. fst p \<noteq> w \<longrightarrow> clientId (snd p) \<noteq> clientId (fst (f s))"
  proof (intro ballI impI)
    fix p assume p: "p \<in> set ?m" and ne: "fst p \<noteq> w"
    then have "p \<noteq> (w, s)" by auto
    with d2 p mem have "clientId (snd p) \<noteq> clientId (snd (w, s))"
      by (metis (mono_tags, lifting) distinct_map inj_onD)
    then show "clientId (snd p) \<noteq> clientId (fst (f s))"
      by (simp add: assms(2))
  qed
  show ?thesis
    using Some Map_put_unique [OF d1 d2 others] Map_remove_unique [OF d1 d2, of w]
    by (simp add: on_session_fst unique_clients_def)
qed

lemma cleanup_of_unique:
  "unique_clients this \<Longrightarrow> unique_clients (fst (cleanupClientConnection_of this w))"
  using Map_remove_unique [of "clientConnections this" w]
  by (simp add: cleanupClientConnection_of_def unique_clients_def split: option.splits)

lemma cleanup_of_subset:
  "set (clientConnections (fst (cleanupClientConnection_of this w))) \<subseteq> set (clientConnections this)"
  using Map_remove_subset [of "clientConnections this" w]
  by (simp add: cleanupClientConnection_of_def split: option.splits)

lemma close_existing_fst:
  "fst (close_existing this w cid) =
     (case List.find (\<lambda>(w, c). clientId c = cid) (clientConnections this) of
        None \<Rightarrow> this
      | Some (existingWs, c) \<Rightarrow> fst (cleanupClientConnection_of this existingWs))"
  by (simp add: close_existing_def split: option.splits prod.splits)

lemma close_existing_unique:
  "unique_clients this \<Longrightarrow> unique_clients (fst (close_existing this w cid))"
  by (simp add: close_existing_fst cleanup_of_unique split: option.splits prod.splits)

lemma close_existing_removes:
  assumes "unique_clients this"
  shows "\<forall>p\<in>set (clientConnections (fst (close_existing this w cid))). clientId (snd p) \<noteq> cid"
proof (cases "List.find (\<lambda>(w, c). clientId c = cid) (clientConnections this)")
  case None
  then have n: "\<not> (\<exists>x. x \<in> set (clientConnections this) \<and> (\<lambda>(w, c). clientId c = cid) x)"
    unfolding find_None_iff .
  have "\<forall>p\<in>set (clientConnections this). clientId (snd p) \<noteq> cid"
  proof
    fix p assume "p \<in> set (clientConnections this)"
    with n have "\<not> (\<lambda>(w, c). clientId c = cid) p" by blast
    then show "clientId (snd p) \<noteq> cid" by (simp add: case_prod_beta)
  qed
  then show ?thesis
    using None by (simp add: close_existing_fst)
next
  case (Some q)
  obtain w0 s0 where q: "q = (w0, s0)" by (cases q)
  let ?m = "clientConnections this"
  have d1: "distinct (map fst ?m)" and d2: "distinct (map (\<lambda>p. clientId (snd p)) ?m)"
    using assms by (simp_all add: unique_clients_def)
  from Some q obtain i where i: "i < length ?m" "?m ! i = (w0, s0)"
    and id: "clientId s0 = cid"
    by (auto simp: find_Some_iff)
  from i have mem: "(w0, s0) \<in> set ?m"
    by (metis nth_mem)
  then have mo: "map_of ?m w0 = Some s0" using d1 by simp
  have "clientId (snd p) \<noteq> cid" if "p \<in> set (Map_remove ?m w0)" for p
  proof -
    from that have p: "p \<in> set ?m" and "fst p \<noteq> w0" by (auto simp: Map_remove_def)
    then have "p \<noteq> (w0, s0)" by auto
    with d2 p mem have "clientId (snd p) \<noteq> clientId (snd (w0, s0))"
      by (metis (mono_tags, lifting) distinct_map inj_onD)
    with id show ?thesis by simp
  qed
  then show ?thesis
    using Some q mo by (simp add: close_existing_fst cleanupClientConnection_of_def)
qed

lemma accept_connection_fst:
  "fst (accept_connection wsThrows this w proto req cid)
     = (fst (close_existing this w cid))
         \<lparr>clientConnections :=
            Map_put (clientConnections (fst (close_existing this w cid))) w
              (new_session wsThrows this (if proto \<noteq> [] then proto else ''ocpp1.6'') req cid)\<rparr>"
  by (simp add: accept_connection_def Let_def)

lemma new_session_simps:
  "clientId (new_session wsThrows this proto req cid) = cid"
  "registered (new_session wsThrows this proto req cid)"
  by (simp_all add: new_session_def)

lemma accept_connection_unique:
  assumes "unique_clients this"
  shows "unique_clients (fst (accept_connection wsThrows this w proto req cid))"
proof -
  let ?t = "fst (close_existing this w cid)"
  let ?info = "new_session wsThrows this (if proto \<noteq> [] then proto else ''ocpp1.6'') req cid"
  have u: "unique_clients ?t" using assms by (rule close_existing_unique)
  have "\<forall>p\<in>set (clientConnections ?t). fst p \<noteq> w \<longrightarrow> clientId (snd p) \<noteq> clientId ?info"
    using close_existing_removes [OF assms, of w cid] by (simp add: new_session_simps)
  with u show ?thesis
    using Map_put_unique [of "clientConnections ?t" w ?info]
    by (simp add: accept_connection_fst unique_clients_def)
qed

lemma handleClientConnection_unique:
  "unique_clients this \<Longrightarrow> unique_clients (fst (handleClientConnection wsThrows this w proto req))"
  by (simp add: handleClientConnection_def Let_def accept_connection_unique split: option.splits)

lemma stop_unique: "unique_clients (fst (stop this))"
  by (simp add: stop_def unique_clients_def)

lemma proxy_step_unique:
  "unique_clients this \<Longrightarrow> unique_clients (fst (proxy_step J wsThrows this e))"
  by (cases e)
     (simp_all add: proxy_step_def handleClientConnection_unique stop_unique
        on_session_unique session_step_clientId)

lemma proxy_run_unique:
  "unique_clients this \<Longrightarrow> unique_clients (proxy_run J wsThrows this es)"
  by (induction es arbitrary: this) (simp_all add: proxy_step_unique)

lemma new_proxy_unique: "unique_clients (new_OcppProxy ups nf)"
  by (simp add: new_OcppProxy_def unique_clients_def)

lemma unique_at_most_one:
  assumes "distinct (map f xs)"
  shows "length (filter (\<lambda>x. f x = c) xs) \<le> 1"
  using assms
proof (induction xs)
  case Nil
  then show ?case by simp
next
  case (Cons x xs)
  show ?case
  proof (cases "f x = c")
    case True
    have "f y \<noteq> c" if "y \<in> set xs" for y
    proof
      assume "f y = c"
      with True that have "f x \<in> f ` set xs" by (metis imageI)
      with Cons.prems show False by simp
    qed
    then have "filter (\<lambda>y. f y = c) xs = []"
      by (simp add: filter_empty_conv)
    with True show ?thesis by simp
  next
    case False
    with Cons show ?thesis by simp
  qed
qed

lemma find_unique:
  assumes "distinct (map (\<lambda>p. clientId (snd p)) m)" and "(w0, s0) \<in> set m"
  shows "List.find (\<lambda>(w, c). clientId c = clientId s0) m = Some (w0, s0)"
proof -
  from assms(2) obtain i where i: "i < length m" "m ! i = (w0, s0)"
    by (auto simp: in_set_conv_nth)
  have "\<not> (\<lambda>(w, c). clientId c = clientId s0) (m ! j)" if "j < i" for j
  proof
    assume "(\<lambda>(w, c). clientId c = clientId s0) (m ! j)"
    then have "clientId (snd (m ! j)) = clientId (snd (m ! i))"
      using i by (simp add: case_prod_beta)
    moreover have "j < length m" using that i by simp
    ultimately have "map (\<lambda>p. clientId (snd p)) m ! j = map (\<lambda>p. clientId (snd p)) m ! i"
      using i by simp
    with assms(1) \<open>j < length m\<close> i have "j = i"
      by (simp add: nth_eq_iff_index_eq del: nth_map)
    with that show False by simp
  qed
  then show ?thesis
    unfolding find_Some_iff using i by (intro exI [of _ i]) auto
qed

lemma close_existing_found:
  assumes "unique_clients this" and "(w0, s0) \<in> set (clientConnections this)"
  shows "close_existing this w (clientId s0)
           = (this\<lparr>clientConnections := Map_remove (clientConnections this) w0\<rparr>,
              (w, Log Warn ''Client ID already in use - closing existing connection'' [])
                # tagged w0 (snd (cleanupClientConnection s0))
                @ [(w0, ClientClose 1001 ''Replaced by a new connection'')])"
proof -
  have d1: "distinct (map fst (clientConnections this))"
    and d2: "distinct (map (\<lambda>p. clientId (snd p)) (clientConnections this))"
    using assms(1) by (simp_all add: unique_clients_def)
  have f: "List.find (\<lambda>(w, c). clientId c = clientId s0) (clientConnections this) = Some (w0, s0)"
    by (rule find_unique [OF d2 assms(2)])
  have mo: "map_of (clientConnections this) w0 = Some s0"
    using d1 assms(2) by simp
  show ?thesis
    by (simp add: close_existing_def f cleanupClientConnection_of_def mo)
qed

lemma close_existing_none:
  assumes "\<forall>p\<in>set (clientConnections this). clientId (snd p) \<noteq> cid"
  shows "close_existing this w cid = (this, [])"
proof -
  have "List.find (\<lambda>(w, c). clientId c = cid) (clientConnections this) = None"
    unfolding find_None_iff using assms by (auto simp: case_prod_beta)
  then show ?thesis by (simp add: close_existing_def)
qed

lemma accept_connection_unfold:
  "accept_connection wsThrows this w proto req cid =
     ((fst (close_existing this w cid))\<lparr>clientConnections :=
          Map_put (clientConnections (fst (close_existing this w cid))) w
            (new_session wsThrows this (if proto \<noteq> [] then proto else ''ocpp1.6'') req cid)\<rparr>,
      snd (close_existing this w cid)
        @ tagged w
            ([Log Debug ''========================================'' [],
              Log Debug ''New client connection: '' [JString cid],
              Log Debug ''Protocol: '' [JString (if proto \<noteq> [] then proto else ''ocpp1.6'')],
              Log Debug ''========================================'' []]
             @ (if notifier this then [Notify ''connectedToProxy'' [cid]] else [])
             @ [Log Debug ''Client IP: ''
                  (case client_ip req of None \<Rightarrow> [] | Some a \<Rightarrow> [JString a])]
             @ concat (map (\<lambda>(k, r). map (Link k) (snd r))
                         (enumerate 0 (new_links wsThrows this
                            (if proto \<noteq> [] then proto else ''ocpp1.6'') req cid)))))"
  by (simp add: accept_connection_def Let_def)

lemma new_session_same_config:
  "new_session wsThrows (this\<lparr>clientConnections := m\<rparr>) proto req cid
     = new_session wsThrows this proto req cid"
  "new_links wsThrows (this\<lparr>clientConnections := m\<rparr>) proto req cid
     = new_links wsThrows this proto req cid"
  by (simp_all add: new_session_def new_links_def)

lemma replace_existing_session:
  assumes "unique_clients this" and "(w0, s0) \<in> set (clientConnections this)"
      and "match_path (rawPath req) = Some (clientId s0)"
  shows "handleClientConnection wsThrows this w proto req
           = (fst (handleClientConnection wsThrows
                     (this\<lparr>clientConnections := Map_remove (clientConnections this) w0\<rparr>) w proto req),
              (w, Log Warn ''Client ID already in use - closing existing connection'' [])
                # tagged w0 (snd (cleanupClientConnection s0))
                @ (w0, ClientClose 1001 ''Replaced by a new connection'')
                # snd (handleClientConnection wsThrows
                         (this\<lparr>clientConnections := Map_remove (clientConnections this) w0\<rparr>)
                         w proto req))"
proof -
  let ?t = "this\<lparr>clientConnections := Map_remove (clientConnections this) w0\<rparr>"
  have ut: "unique_clients ?t"
    using assms(1) Map_remove_unique [of "clientConnections this" w0]
    by (simp add: unique_clients_def)
  have a: "close_existing this w (clientId s0)
             = (?t, (w, Log Warn ''Client ID already in use - closing existing connection'' [])
                # tagged w0 (snd (cleanupClientConnection s0))
                @ [(w0, ClientClose 1001 ''Replaced by a new connection'')])"
    by (rule close_existing_found [OF assms(1,2)])
  have "\<forall>p\<in>set (clientConnections (fst (close_existing this w (clientId s0)))).
          clientId (snd p) \<noteq> clientId s0"
    by (rule close_existing_removes [OF assms(1)])
  then have "\<forall>p\<in>set (clientConnections ?t). clientId (snd p) \<noteq> clientId s0"
    by (simp add: a)
  then have b: "close_existing ?t w (clientId s0) = (?t, [])"
    by (rule close_existing_none)
  show ?thesis
    using assms(3)
    by (simp add: handleClientConnection_def rawPath_def [symmetric] accept_connection_unfold a b
          new_session_same_config)
qed

lemma map_of_Map_put_same: "map_of (Map_put m k v) k = Some v"
proof (cases "k \<in> fst ` set m")
  case True
  have "k \<in> fst ` set m \<Longrightarrow>
        map_of (map (\<lambda>(k', v'). if k' = k then (k', v) else (k', v')) m) k = Some v"
    by (induction m) (auto simp: case_prod_beta)
  with True show ?thesis by (simp add: Map_put_def)
next
  case False
  then have "map_of m k = None" by (simp add: map_of_eq_None_iff)
  with False show ?thesis by (simp add: Map_put_def map_add_def)
qed

lemma map_of_Map_remove_same: "map_of (Map_remove m k) k = None"
  by (auto simp: Map_remove_def map_of_eq_None_iff)

lemma map_of_Map_put_other: "k' \<noteq> k \<Longrightarrow> map_of (Map_put m k v) k' = map_of m k'"
proof -
  assume n: "k' \<noteq> k"
  have "map_of (map (\<lambda>(k', v'). if k' = k then (k', v) else (k', v')) m) k' = map_of m k'"
    using n by (induction m) (simp_all add: case_prod_beta)
  with n show ?thesis by (auto simp: Map_put_def map_add_def split: option.splits)
qed

lemma replace_existing_registry:
  assumes "unique_clients this" and "(w0, s0) \<in> set (clientConnections this)"
      and "match_path (rawPath req) = Some (clientId s0)"
  shows "fst (handleClientConnection wsThrows this w proto req)
           = this\<lparr>clientConnections :=
                    Map_put (Map_remove (clientConnections this) w0) w
                      (new_session wsThrows this (if proto \<noteq> [] then proto else ''ocpp1.6'') req
                         (clientId s0))\<rparr>"
  using assms(3)
  by (simp add: handleClientConnection_def rawPath_def [symmetric] accept_connection_unfold
        close_existing_found [OF assms(1,2)])

lemma proxy_one_registry:
  "clientConnections proxy_one
     = [(7, new_session (\<lambda>_. False) proxy_two ''ocpp1.6'' request_auth ''CP1'')]"
  by (simp add: proxy_one_def proxy_step_def handleClientConnection_def url_request_auth
        truthy_def match_path_CP1 accept_connection_unfold close_existing_def
        Map_put_def proxy_two_def new_OcppProxy_def)

lemma proxy_one_config:
  "new_session wsThrows proxy_one proto req cid = new_session wsThrows proxy_two proto req cid"
  by (simp add: proxy_one_def proxy_step_def handleClientConnection_def url_request_auth
        truthy_def match_path_CP1 accept_connection_unfold close_existing_def
        new_session_def new_links_def proxy_two_def new_OcppProxy_def)

lemma rawPath_request_auth: "match_path (rawPath request_auth) = Some ''CP1''"
  by (simp add: rawPath_def url_request_auth truthy_def match_path_CP1)


section \<open>A connected link holds a socket\<close>

text \<open>
  \<open>link_ok\<close> holds of every link of a new session and is kept by every event of the
  session: the fan-out of \<open>handleClientMessage\<close> never finds a link that counts as
  connected without a socket.
\<close>

lemma scheduleReconnect_ok: "link_ok u \<Longrightarrow> link_ok (fst (scheduleReconnect u))"
  by (simp add: scheduleReconnect_def link_ok_def Let_def)

lemma connect_ok: "link_ok u \<Longrightarrow> link_ok (fst (connect throws u))"
  using scheduleReconnect_ok [of u]
  by (auto simp: connect_def link_ok_def Let_def split: prod.splits)

lemma ws_on_open_ok: "can_open u \<Longrightarrow> link_ok (fst (ws_on_open u))"
  by (simp add: ws_on_open_def link_ok_def can_open_def)

lemma ws_on_close_begin_ok: "link_ok (fst (ws_on_close_begin u))"
  by (simp add: ws_on_close_begin_def link_ok_def)

lemma ws_on_close_finish_ok: "link_ok u \<Longrightarrow> link_ok (fst (ws_on_close_finish u))"
  by (simp add: ws_on_close_finish_def scheduleReconnect_ok)

lemma timer_fired_ok: "link_ok u \<Longrightarrow> link_ok (fst (timer_fired throws u))"
  unfolding timer_fired_def by (rule connect_ok) (simp add: link_ok_def)

lemma close_ok: "link_ok (fst (close u))"
  by (simp add: close_def link_ok_def)

lemma start_link_ok: "link_ok (fst (start_link wsThrows (new_UpstreamConnection n b c p ip sp)))"
  unfolding start_link_def Let_def
  by (rule connect_ok)
     (simp add: link_ok_def onGaveUp_def onDisconnected_def onConnected_def onMessage_def
        new_UpstreamConnection_def)

lemma set_link_ok:
  "list_all link_ok (upstreams s) \<Longrightarrow> link_ok u \<Longrightarrow> list_all link_ok (upstreams (set_link s k u))"
  by (auto simp: set_link_def list_all_iff dest: set_update_subset_insert [THEN subsetD])

lemma route_buffered_upstreams: "upstreams (fst (route_buffered J nf s msgs)) = upstreams s"
proof (induction msgs arbitrary: s)
  case Nil
  then show ?case by simp
next
  case (Cons msg msgs)
  show ?case
    using Cons.IH [of "fst (handleClientMessage J nf s msg)"]
    by (simp add: then_do_fst handleClientMessage_upstreams)
qed

lemma sendBuffer_upstreams: "upstreams (fst (sendBufferToUpstream J nf s k)) = upstreams s"
  by (simp add: sendBufferToUpstream_def then_do_fst route_buffered_upstreams)

lemma clientWs_on_message_upstreams:
  "upstreams (fst (clientWs_on_message J nf s msg)) = upstreams s"
  by (simp add: clientWs_on_message_def handleClientMessage_upstreams)

lemma cleanup_ok:
  "list_all link_ok (upstreams s) \<Longrightarrow> list_all link_ok (upstreams (fst (cleanupClientConnection s)))"
  by (simp add: cleanupClientConnection_def list_all_iff close_ok)

lemma checkUpstreamsStatus_ok:
  "list_all link_ok (upstreams s) \<Longrightarrow> list_all link_ok (upstreams (fst (checkUpstreamsStatus s)))"
  using cleanup_ok [of "s\<lparr>clientWs := closing (clientWs s)\<rparr>"]
  by (simp add: checkUpstreamsStatus_unfold)

lemma upstream_onConnected_upstreams:
  "upstreams (fst (upstream_onConnected J nf s k)) = upstreams s"
  by (simp add: upstream_onConnected_fst flush_upstreams sendBuffer_upstreams)

lemma upstream_onDisconnected_ok:
  "list_all link_ok (upstreams s)
     \<Longrightarrow> list_all link_ok (upstreams (fst (upstream_onDisconnected nf s k)))"
  by (simp add: upstream_onDisconnected_fst checkUpstreamsStatus_ok)

lemma upstream_onGaveUp_ok:
  "list_all link_ok (upstreams s) \<Longrightarrow> list_all link_ok (upstreams (fst (upstream_onGaveUp s k)))"
  by (simp add: upstream_onGaveUp_fst checkUpstreamsStatus_ok flush_upstreams)

lemma gave_up_after_ok:
  "list_all link_ok (upstreams s) \<Longrightarrow> list_all link_ok (upstreams (fst (gave_up_after s k ev)))"
  by (simp add: gave_up_after_def upstream_onGaveUp_ok)

lemma nth_ok: "list_all link_ok us \<Longrightarrow> k < length us \<Longrightarrow> link_ok (us ! k)"
  by (simp add: list_all_length)

lemma link_open_ok:
  assumes "list_all link_ok (upstreams s)" and "can_open (upstreams s ! k)"
  shows "list_all link_ok (upstreams (fst (link_open J nf s k)))"
  using set_link_ok [OF assms(1) ws_on_open_ok [OF assms(2)], of k]
  by (simp add: link_open_fst Let_def upstream_onConnected_upstreams)

lemma link_message_ok:
  "list_all link_ok (upstreams s) \<Longrightarrow> list_all link_ok (upstreams (fst (link_message J s k data)))"
  by (simp add: link_message_def handleUpstreamMessage_upstreams)

lemma link_timer_ok:
  assumes "list_all link_ok (upstreams s)" and "k < length (upstreams s)"
  shows "list_all link_ok (upstreams (fst (link_timer throws s k)))"
  unfolding link_timer_fst
  by (intro gave_up_after_ok set_link_ok assms(1) timer_fired_ok nth_ok [OF assms])

lemma ok_length:
  "length (upstreams (set_link s k u)) = length (upstreams s)"
  by (simp add: set_link_def)

lemma checkUpstreamsStatus_length:
  "length (upstreams (fst (checkUpstreamsStatus s))) = length (upstreams s)"
  by (simp add: checkUpstreamsStatus_unfold cleanupClientConnection_def)

lemma link_close_ok:
  assumes "list_all link_ok (upstreams s)" and "k < length (upstreams s)"
  shows "list_all link_ok (upstreams (fst (link_close nf s k)))"
proof -
  define u1 where "u1 = fst (ws_on_close_begin (upstreams s ! k))"
  define s2 where "s2 = (if OnDisconnected (name u1) \<in> set (snd (ws_on_close_begin (upstreams s ! k)))
                then fst (upstream_onDisconnected nf (set_link s k u1) k)
                else set_link s k u1)"
  have a: "list_all link_ok (upstreams (set_link s k u1))"
    unfolding u1_def by (intro set_link_ok assms ws_on_close_begin_ok)
  have b: "list_all link_ok (upstreams s2)"
    unfolding s2_def using a by (simp add: upstream_onDisconnected_ok)
  have "k < length (upstreams s2)"
    unfolding s2_def using assms(2)
    by (simp add: upstream_onDisconnected_fst checkUpstreamsStatus_length ok_length)
  then have c: "link_ok (fst (ws_on_close_finish (upstreams s2 ! k)))"
    by (intro ws_on_close_finish_ok nth_ok [OF b])
  show ?thesis
    unfolding link_close_fst Let_def u1_def [symmetric] s2_def [symmetric]
    by (intro gave_up_after_ok set_link_ok b c)
qed

lemma clientWs_on_close_ok:
  "list_all link_ok (upstreams s) \<Longrightarrow> list_all link_ok (upstreams (fst (clientWs_on_close nf s)))"
  using cleanup_ok [of "s\<lparr>clientWs := CLOSED\<rparr>"]
  by (simp add: clientWs_on_close_fst)

lemma session_step_ok:
  assumes "list_all link_ok (upstreams s)"
  shows "list_all link_ok (upstreams (fst (session_step J nf wsThrows s e)))"
proof (cases e)
  case (FromClient msg)
  then show ?thesis
    using assms by (simp add: session_step_def drop_exn_def clientWs_on_message_upstreams)
next
  case ClientGone
  then show ?thesis
    using assms by (simp add: session_step_def clientWs_on_close_ok)
next
  case (LinkOpened k)
  then show ?thesis
    using assms by (simp add: session_step_def drop_exn_def link_open_ok)
next
  case (LinkFrame k data)
  then show ?thesis
    using assms by (simp add: session_step_def drop_exn_def link_message_ok)
next
  case (LinkClosed k)
  then show ?thesis
    using assms by (simp add: session_step_def link_close_ok)
next
  case (LinkTimer k)
  then show ?thesis
    using assms by (simp add: session_step_def link_timer_ok)
qed

lemma session_run_ok:
  "list_all link_ok (upstreams s)
     \<Longrightarrow> list_all link_ok (upstreams (session_run J nf wsThrows s es))"
  by (induction es arbitrary: s) (simp_all add: session_step_ok)

lemma new_session_ok: "list_all link_ok (upstreams (new_session wsThrows this proto req cid))"
  by (auto simp: new_session_def new_links_def list_all_iff start_link_ok)

subsection \<open>In every registry the proxy reaches\<close>

lemma Map_put_subset: "set (Map_put m k v) \<subseteq> insert (k, v) (set m)"
  by (auto simp: Map_put_def split: if_splits)

lemma close_existing_subset:
  "set (clientConnections (fst (close_existing this w cid))) \<subseteq> set (clientConnections this)"
  using cleanup_of_subset [of this]
  by (simp add: close_existing_fst split: option.splits prod.splits)

lemma sessions_okI:
  assumes "\<And>w s. (w, s) \<in> set (clientConnections this)
             \<Longrightarrow> registered s \<and> list_all link_ok (upstreams s)"
  shows "sessions_ok this"
  using assms by (auto simp: sessions_ok_def list_all_iff)

lemma sessions_okD:
  assumes "sessions_ok this" and "(w, s) \<in> set (clientConnections this)"
  shows "registered s" and "list_all link_ok (upstreams s)"
  using assms by (auto simp: sessions_ok_def list_all_iff)

lemma on_session_ok:
  assumes "sessions_ok this"
      and "\<And>s. list_all link_ok (upstreams s) \<Longrightarrow> list_all link_ok (upstreams (fst (f s)))"
  shows "sessions_ok (fst (on_session this w f))"
proof (cases "map_of (clientConnections this) w")
  case None
  with assms(1) show ?thesis by (simp add: on_session_fst)
next
  case (Some s)
  have mem: "(w, s) \<in> set (clientConnections this)" using Some by (rule map_of_SomeD)
  have ok: "list_all link_ok (upstreams (fst (f s)))"
    by (rule assms(2)) (rule sessions_okD(2) [OF assms(1) mem])
  show ?thesis
  proof (cases "registered (fst (f s))")
    case True
    show ?thesis
    proof (rule sessions_okI)
      fix w' s'
      assume "(w', s') \<in> set (clientConnections (fst (on_session this w f)))"
      then have "(w', s') \<in> set (Map_put (clientConnections this) w (fst (f s)))"
        using Some True by (simp add: on_session_fst)
      then have "(w', s') = (w, fst (f s)) \<or> (w', s') \<in> set (clientConnections this)"
        using Map_put_subset [of "clientConnections this" w "fst (f s)"] by blast
      then show "registered s' \<and> list_all link_ok (upstreams s')"
        using True ok sessions_okD [OF assms(1)] by auto
    qed
  next
    case False
    show ?thesis
    proof (rule sessions_okI)
      fix w' s'
      assume "(w', s') \<in> set (clientConnections (fst (on_session this w f)))"
      then have "(w', s') \<in> set (Map_remove (clientConnections this) w)"
        using Some False by (simp add: on_session_fst)
      then have "(w', s') \<in> set (clientConnections this)"
        using Map_remove_subset [of "clientConnections this" w] by blast
      then show "registered s' \<and> list_all link_ok (upstreams s')"
        using sessions_okD [OF assms(1)] by auto
    qed
  qed
qed

lemma handleClientConnection_ok:
  assumes "sessions_ok this"
  shows "sessions_ok (fst (handleClientConnection wsThrows this w proto req))"
proof (cases "match_path (rawPath req)")
  case None
  with assms show ?thesis
    by (simp add: handleClientConnection_def rawPath_def [symmetric])
next
  case (Some cid)
  show ?thesis
  proof (rule sessions_okI)
    fix w' s'
    let ?n = "new_session wsThrows this (if proto \<noteq> [] then proto else ''ocpp1.6'') req cid"
    assume "(w', s') \<in> set (clientConnections (fst (handleClientConnection wsThrows this w proto req)))"
    then have "(w', s') \<in> set (Map_put (clientConnections (fst (close_existing this w cid))) w ?n)"
      using Some
      by (simp add: handleClientConnection_def rawPath_def [symmetric] accept_connection_unfold)
    then have "(w', s') = (w, ?n) \<or> (w', s') \<in> set (clientConnections (fst (close_existing this w cid)))"
      using Map_put_subset [of "clientConnections (fst (close_existing this w cid))" w ?n] by blast
    then have "s' = ?n \<or> (w', s') \<in> set (clientConnections this)"
      using close_existing_subset [of this w cid] by blast
    then show "registered s' \<and> list_all link_ok (upstreams s')"
      using sessions_okD [OF assms] new_session_ok [of wsThrows this _ req cid]
      by (auto simp: new_session_simps)
  qed
qed

lemma proxy_step_ok:
  "sessions_ok this \<Longrightarrow> sessions_ok (fst (proxy_step J wsThrows this e))"
proof (cases e)
  case (Connection w proto req)
  assume "sessions_ok this"
  then show ?thesis
    using Connection by (simp add: proxy_step_def handleClientConnection_ok)
next
  case (OfSession w e')
  assume "sessions_ok this"
  then show ?thesis
    using OfSession by (simp add: proxy_step_def on_session_ok session_step_ok)
next
  case Shutdown
  then show ?thesis
    by (simp add: proxy_step_def stop_def sessions_ok_def)
qed

lemma proxy_run_ok:
  "sessions_ok this \<Longrightarrow> sessions_ok (proxy_run J wsThrows this es)"
  by (induction es arbitrary: this) (simp_all add: proxy_step_ok)

lemma registry_sessions_ok:
  assumes "(w, s) \<in> set (clientConnections (proxy_run J wsThrows (new_OcppProxy ups nf) es))"
  shows "registered s" and "list_all link_ok (upstreams s)"
proof -
  have "sessions_ok (proxy_run J wsThrows (new_OcppProxy ups nf) es)"
    by (rule proxy_run_ok) (simp add: sessions_ok_def new_OcppProxy_def)
  from sessions_okD [OF this assms]
  show "registered s" and "list_all link_ok (upstreams s)" .
qed


section \<open>Replies of the client to the CALLs of an upstream\<close>
















section \<open>A new connection replaces the session of the same client\<close>

lemma cleanup_registered:
  assumes "registered s"
  shows "cleanupClientConnection s
           = (s\<lparr>upstreams := map (\<lambda>u. u\<lparr>closed := True, reconnectTimer := None, ws := None,
                                           isConnected := False\<rparr>) (upstreams s),
                router := \<lparr>messageIdToServer = Map.empty, clientCallIds = {}\<rparr>,
                registered := False\<rparr>,
              concat (map (\<lambda>(k, u). map (Link k)
                             ((if reconnectTimer u \<noteq> None then [ClearTimeout] else [])
                              @ (if ws u \<noteq> None then [WsClose] else [])
                              @ [LLog Info ''Connection closed (no reconnect)'' []]))
                        (enumerate 0 (upstreams s)))
                @ [Log Debug ''Cleared all message mappings'' [],
                   Log Info ''Client connection cleanup complete'' []])"
  using assms by (simp add: cleanupClientConnection_def close_def clear_def)

lemma Link_in_cleanup:
  assumes "registered s" and "k < length (upstreams s)"
      and "e \<in> set (snd (close (upstreams s ! k)))"
  shows "Link k e \<in> set (snd (cleanupClientConnection s))"
proof -
  have "Link k e \<in> set (concat (map (\<lambda>(j, u). map (Link j) (snd (close u)))
                                   (enumerate 0 (upstreams s))))"
    unfolding in_concat_enumerate using assms(2,3) by (intro exI [of _ k]) simp
  then show ?thesis
    using assms(1) by (simp add: cleanupClientConnection_def)
qed

lemma cleanup_closes:
  assumes "registered s" and "k < length (upstreams s)"
  shows "Link k (LLog Info ''Connection closed (no reconnect)'' []) \<in> set (snd (cleanupClientConnection s))"
    and "ws (upstreams s ! k) \<noteq> None \<Longrightarrow> Link k WsClose \<in> set (snd (cleanupClientConnection s))"
    and "reconnectTimer (upstreams s ! k) \<noteq> None
           \<Longrightarrow> Link k ClearTimeout \<in> set (snd (cleanupClientConnection s))"
  by (rule Link_in_cleanup [OF assms], simp add: close_def)+

lemma proxy_one_links:
  "\<exists>a b. upstreams (new_session (\<lambda>_. False) proxy_two ''ocpp1.6'' request_auth ''CP1'') = [a, b]
         \<and> ws a = Some CONNECTING \<and> reconnectTimer a = None
         \<and> ws b = Some CONNECTING \<and> reconnectTimer b = None"
  by (simp add: new_session_def new_links_def proxy_two_def new_OcppProxy_def start_link_def
        Let_def connect_def onGaveUp_def onDisconnected_def onConnected_def onMessage_def
        new_UpstreamConnection_def)

text \<open>
  Claim C9: at most one session per \<open>client_id\<close> exists at any time; a new connection
  with the \<open>client_id\<close> of a live session closes the old one with code 1001 first.

  In every registry the proxy reaches from its start, whatever the events, no two
  sessions have the same client ID.  When a connection arrives whose path is the
  client ID of a registered session \<open>s0\<close> of socket \<open>w0\<close>, the handler logs the
  warning, tears \<open>s0\<close> down, closes \<open>w0\<close> with code 1001, and only then does what it
  does for a new client on the registry without \<open>s0\<close>; the registry it leaves maps the
  new socket to the new session and the old socket to nothing.  The teardown closes
  every link of \<open>s0\<close>: it cancels the link's pending timer, closes the socket the link
  holds, and sets the link's \<open>closed\<close> flag, so that the link never reconnects; it
  empties both tables of the router of \<open>s0\<close> and unregisters \<open>s0\<close>.
\<close>

theorem one_session_per_client_id:
  "length (filter (\<lambda>p. clientId (snd p) = cid) (clientConnections (proxy_run J wsThrows (new_OcppProxy ups nf) es))) \<le> 1
   \<and> ((w0, s0) \<in> set (clientConnections (proxy_run J wsThrows (new_OcppProxy ups nf) es))
        \<and> match_path (rawPath req) = Some (clientId s0) \<longrightarrow>
      registered s0
      \<and> handleClientConnection wsThrows (proxy_run J wsThrows (new_OcppProxy ups nf) es) w proto req
        = ((proxy_run J wsThrows (new_OcppProxy ups nf) es)\<lparr>clientConnections :=
              Map_put (Map_remove (clientConnections (proxy_run J wsThrows (new_OcppProxy ups nf) es)) w0)
                w (new_session wsThrows (proxy_run J wsThrows (new_OcppProxy ups nf) es)
                     (if proto \<noteq> [] then proto else ''ocpp1.6'') req (clientId s0))\<rparr>,
           (w, Log Warn ''Client ID already in use - closing existing connection'' [])
             # tagged w0
                 (concat (map (\<lambda>(k, u). map (Link k)
                                 ((if reconnectTimer u \<noteq> None then [ClearTimeout] else [])
                                  @ (if ws u \<noteq> None then [WsClose] else [])
                                  @ [LLog Info ''Connection closed (no reconnect)'' []]))
                            (enumerate 0 (upstreams s0)))
                  @ [Log Debug ''Cleared all message mappings'' [],
                     Log Info ''Client connection cleanup complete'' []])
             @ (w0, ClientClose 1001 ''Replaced by a new connection'')
             # snd (handleClientConnection wsThrows
                      ((proxy_run J wsThrows (new_OcppProxy ups nf) es)\<lparr>clientConnections := Map_remove (clientConnections (proxy_run J wsThrows (new_OcppProxy ups nf) es)) w0\<rparr>)
                      w proto req))
      \<and> (\<forall>k. k < length (upstreams s0) \<longrightarrow>
             (w0, Link k (LLog Info ''Connection closed (no reconnect)'' []))
               \<in> set (snd (handleClientConnection wsThrows (proxy_run J wsThrows (new_OcppProxy ups nf) es) w proto req))
             \<and> (ws (upstreams s0 ! k) \<noteq> None \<longrightarrow>
                  (w0, Link k WsClose) \<in> set (snd (handleClientConnection wsThrows (proxy_run J wsThrows (new_OcppProxy ups nf) es) w proto req)))
             \<and> (reconnectTimer (upstreams s0 ! k) \<noteq> None \<longrightarrow>
                  (w0, Link k ClearTimeout) \<in> set (snd (handleClientConnection wsThrows (proxy_run J wsThrows (new_OcppProxy ups nf) es) w proto req))))
      \<and> fst (cleanupClientConnection s0)
          = s0\<lparr>upstreams := map (\<lambda>u. u\<lparr>closed := True, reconnectTimer := None, ws := None,
                                          isConnected := False\<rparr>) (upstreams s0),
               router := \<lparr>messageIdToServer = Map.empty, clientCallIds = {}\<rparr>,
               registered := False\<rparr>
      \<and> map_of (clientConnections (fst (handleClientConnection wsThrows (proxy_run J wsThrows (new_OcppProxy ups nf) es) w proto req))) w
          = Some (new_session wsThrows (proxy_run J wsThrows (new_OcppProxy ups nf) es)
                    (if proto \<noteq> [] then proto else ''ocpp1.6'') req (clientId s0))
      \<and> (w0 \<noteq> w \<longrightarrow>
           map_of (clientConnections (fst (handleClientConnection wsThrows (proxy_run J wsThrows (new_OcppProxy ups nf) es) w proto req))) w0 = None))"
proof -
  define this where "this = proxy_run J wsThrows (new_OcppProxy ups nf) es"
  have u: "unique_clients this"
    unfolding this_def by (rule proxy_run_unique) (rule new_proxy_unique)
  have A: "length (filter (\<lambda>p. clientId (snd p) = cid) (clientConnections this)) \<le> 1"
    using u by (intro unique_at_most_one) (simp add: unique_clients_def)
  have B1: "registered s0"
    and B2: "handleClientConnection wsThrows this w proto req
        = (this\<lparr>clientConnections :=
              Map_put (Map_remove (clientConnections this) w0)
                w (new_session wsThrows this
                     (if proto \<noteq> [] then proto else ''ocpp1.6'') req (clientId s0))\<rparr>,
           (w, Log Warn ''Client ID already in use - closing existing connection'' [])
             # tagged w0
                 (concat (map (\<lambda>(k, u). map (Link k)
                                 ((if reconnectTimer u \<noteq> None then [ClearTimeout] else [])
                                  @ (if ws u \<noteq> None then [WsClose] else [])
                                  @ [LLog Info ''Connection closed (no reconnect)'' []]))
                            (enumerate 0 (upstreams s0)))
                  @ [Log Debug ''Cleared all message mappings'' [],
                     Log Info ''Client connection cleanup complete'' []])
             @ (w0, ClientClose 1001 ''Replaced by a new connection'')
             # snd (handleClientConnection wsThrows
                      (this\<lparr>clientConnections := Map_remove (clientConnections this) w0\<rparr>)
                      w proto req))"
    and B3: "(\<forall>k. k < length (upstreams s0) \<longrightarrow>
             (w0, Link k (LLog Info ''Connection closed (no reconnect)'' []))
               \<in> set (snd (handleClientConnection wsThrows this w proto req))
             \<and> (ws (upstreams s0 ! k) \<noteq> None \<longrightarrow>
                  (w0, Link k WsClose) \<in> set (snd (handleClientConnection wsThrows this w proto req)))
             \<and> (reconnectTimer (upstreams s0 ! k) \<noteq> None \<longrightarrow>
                  (w0, Link k ClearTimeout) \<in> set (snd (handleClientConnection wsThrows this w proto req))))"
    and B4: "fst (cleanupClientConnection s0)
          = s0\<lparr>upstreams := map (\<lambda>u. u\<lparr>closed := True, reconnectTimer := None, ws := None,
                                          isConnected := False\<rparr>) (upstreams s0),
               router := \<lparr>messageIdToServer = Map.empty, clientCallIds = {}\<rparr>,
               registered := False\<rparr>"
    and B5: "map_of (clientConnections (fst (handleClientConnection wsThrows this w proto req))) w
          = Some (new_session wsThrows this
                    (if proto \<noteq> [] then proto else ''ocpp1.6'') req (clientId s0))"
    and B6: "(w0 \<noteq> w \<longrightarrow>
           map_of (clientConnections (fst (handleClientConnection wsThrows this w proto req))) w0 = None)"
    if h: "(w0, s0) \<in> set (clientConnections this)"
          "match_path (rawPath req) = Some (clientId s0)"
  proof -
    show reg: "registered s0"
      using h(1) unfolding this_def by (rule registry_sessions_ok(1))
    note cl = cleanup_registered [OF reg]
    note r = replace_existing_registry [OF u h, of wsThrows w proto]
    have ev: "snd (handleClientConnection wsThrows this w proto req)
        = (w, Log Warn ''Client ID already in use - closing existing connection'' [])
             # tagged w0 (snd (cleanupClientConnection s0))
             @ (w0, ClientClose 1001 ''Replaced by a new connection'')
             # snd (handleClientConnection wsThrows
                      (this\<lparr>clientConnections := Map_remove (clientConnections this) w0\<rparr>)
                      w proto req)"
      using replace_existing_session [OF u h, of wsThrows w proto] by simp
    have "handleClientConnection wsThrows this w proto req
            = (fst (handleClientConnection wsThrows this w proto req),
               snd (handleClientConnection wsThrows this w proto req))"
      by simp
    then show "handleClientConnection wsThrows this w proto req
        = (this\<lparr>clientConnections :=
              Map_put (Map_remove (clientConnections this) w0)
                w (new_session wsThrows this
                     (if proto \<noteq> [] then proto else ''ocpp1.6'') req (clientId s0))\<rparr>,
           (w, Log Warn ''Client ID already in use - closing existing connection'' [])
             # tagged w0
                 (concat (map (\<lambda>(k, u). map (Link k)
                                 ((if reconnectTimer u \<noteq> None then [ClearTimeout] else [])
                                  @ (if ws u \<noteq> None then [WsClose] else [])
                                  @ [LLog Info ''Connection closed (no reconnect)'' []]))
                            (enumerate 0 (upstreams s0)))
                  @ [Log Debug ''Cleared all message mappings'' [],
                     Log Info ''Client connection cleanup complete'' []])
             @ (w0, ClientClose 1001 ''Replaced by a new connection'')
             # snd (handleClientConnection wsThrows
                      (this\<lparr>clientConnections := Map_remove (clientConnections this) w0\<rparr>)
                      w proto req))"
      by (simp only: r ev cl snd_conv)
    show "(\<forall>k. k < length (upstreams s0) \<longrightarrow>
             (w0, Link k (LLog Info ''Connection closed (no reconnect)'' []))
               \<in> set (snd (handleClientConnection wsThrows this w proto req))
             \<and> (ws (upstreams s0 ! k) \<noteq> None \<longrightarrow>
                  (w0, Link k WsClose) \<in> set (snd (handleClientConnection wsThrows this w proto req)))
             \<and> (reconnectTimer (upstreams s0 ! k) \<noteq> None \<longrightarrow>
                  (w0, Link k ClearTimeout) \<in> set (snd (handleClientConnection wsThrows this w proto req))))"
    proof (intro allI impI conjI)
      fix k assume k: "k < length (upstreams s0)"
      show "(w0, Link k (LLog Info ''Connection closed (no reconnect)'' []))
               \<in> set (snd (handleClientConnection wsThrows this w proto req))"
        using k by (simp add: ev tagged_def image_iff cleanup_closes(1) [OF reg k])
      show "(w0, Link k WsClose) \<in> set (snd (handleClientConnection wsThrows this w proto req))"
        if "ws (upstreams s0 ! k) \<noteq> None"
        using k that by (simp add: ev tagged_def image_iff cleanup_closes(2) [OF reg k])
      show "(w0, Link k ClearTimeout) \<in> set (snd (handleClientConnection wsThrows this w proto req))"
        if "reconnectTimer (upstreams s0 ! k) \<noteq> None"
        using k that by (simp add: ev tagged_def image_iff cleanup_closes(3) [OF reg k])
    qed
    show "fst (cleanupClientConnection s0)
          = s0\<lparr>upstreams := map (\<lambda>u. u\<lparr>closed := True, reconnectTimer := None, ws := None,
                                          isConnected := False\<rparr>) (upstreams s0),
               router := \<lparr>messageIdToServer = Map.empty, clientCallIds = {}\<rparr>,
               registered := False\<rparr>"
      by (simp only: cl fst_conv)
    show "map_of (clientConnections (fst (handleClientConnection wsThrows this w proto req))) w
          = Some (new_session wsThrows this
                    (if proto \<noteq> [] then proto else ''ocpp1.6'') req (clientId s0))"
      by (simp only: r) (simp add: map_of_Map_put_same)
    show "(w0 \<noteq> w \<longrightarrow>
           map_of (clientConnections (fst (handleClientConnection wsThrows this w proto req))) w0 = None)"
      by (simp only: r) (simp add: map_of_Map_put_other map_of_Map_remove_same)
  qed
  from A B1 B2 B3 B4 B5 B6 show ?thesis
    unfolding this_def by blast
qed

theorem one_session_per_client_id_witness:
  "clientConnections proxy_one
     = [(7, new_session (\<lambda>_. False) proxy_two ''ocpp1.6'' request_auth ''CP1'')]
   \<and> match_path (rawPath request_auth) = Some ''CP1''
   \<and> length (filter (\<lambda>p. clientId (snd p) = ''CP1'') (clientConnections proxy_one)) \<le> 1
   \<and> take 8 (snd (handleClientConnection (\<lambda>_. False) proxy_one 8 ''ocpp1.6'' request_auth))
       = [(8, Log Warn ''Client ID already in use - closing existing connection'' []),
          (7, Link 0 WsClose),
          (7, Link 0 (LLog Info ''Connection closed (no reconnect)'' [])),
          (7, Link 1 WsClose),
          (7, Link 1 (LLog Info ''Connection closed (no reconnect)'' [])),
          (7, Log Debug ''Cleared all message mappings'' []),
          (7, Log Info ''Client connection cleanup complete'' []),
          (7, ClientClose 1001 ''Replaced by a new connection'')]
   \<and> map upstream.closed
         (upstreams (fst (cleanupClientConnection
            (new_session (\<lambda>_. False) proxy_two ''ocpp1.6'' request_auth ''CP1''))))
       = [True, True]
   \<and> map ws
         (upstreams (fst (cleanupClientConnection
            (new_session (\<lambda>_. False) proxy_two ''ocpp1.6'' request_auth ''CP1''))))
       = [None, None]
   \<and> \<not> registered (fst (cleanupClientConnection
            (new_session (\<lambda>_. False) proxy_two ''ocpp1.6'' request_auth ''CP1'')))
   \<and> map_of (clientConnections
               (fst (handleClientConnection (\<lambda>_. False) proxy_one 8 ''ocpp1.6'' request_auth))) 8
       = Some (new_session (\<lambda>_. False) proxy_two ''ocpp1.6'' request_auth ''CP1'')
   \<and> map_of (clientConnections
               (fst (handleClientConnection (\<lambda>_. False) proxy_one 8 ''ocpp1.6'' request_auth))) 7
       = None"
proof -
  let ?S = "new_session (\<lambda>_. False) proxy_two ''ocpp1.6'' request_auth ''CP1''"
  let ?H = "handleClientConnection (\<lambda>_. False) proxy_one 8 ''ocpp1.6'' request_auth"
  note t = one_session_per_client_id
    [where J = json_decode and wsThrows = "\<lambda>_. False"
       and ups = "[(''PRI'', ''ws://pri/''), (''SEC'', ''ws://sec/'')]" and nf = False
       and es = "[Connection 7 ''ocpp1.6'' request_auth]"
       and cid = "''CP1''" and ?w0.0 = 7
       and ?s0.0 = "new_session (\<lambda>_. False) proxy_two ''ocpp1.6'' request_auth ''CP1''"
       and w = 8 and proto = "''ocpp1.6''" and req = request_auth,
     folded proxy_two_def, folded proxy_one_def]
  have m: "(7, ?S) \<in> set (clientConnections proxy_one)
           \<and> match_path (rawPath request_auth) = Some (clientId ?S)"
    by (simp add: proxy_one_registry rawPath_request_auth new_session_simps)
  note a = t [THEN conjunct1]
  note b = t [THEN conjunct2, THEN mp, OF m]
  obtain u0 u1 where l: "upstreams ?S = [u0, u1]"
      "ws u0 = Some CONNECTING" "reconnectTimer u0 = None"
      "ws u1 = Some CONNECTING" "reconnectTimer u1 = None"
    using proxy_one_links by blast
  have e: "take 8 (snd ?H)
       = [(8, Log Warn ''Client ID already in use - closing existing connection'' []),
          (7, Link 0 WsClose),
          (7, Link 0 (LLog Info ''Connection closed (no reconnect)'' [])),
          (7, Link 1 WsClose),
          (7, Link 1 (LLog Info ''Connection closed (no reconnect)'' [])),
          (7, Log Debug ''Cleared all message mappings'' []),
          (7, Log Info ''Client connection cleanup complete'' []),
          (7, ClientClose 1001 ''Replaced by a new connection'')]"
    by (simp only: b [THEN conjunct2, THEN conjunct1] snd_conv) (simp add: l tagged_def)
  note f = b [THEN conjunct2, THEN conjunct2, THEN conjunct2, THEN conjunct1]
  have f1: "map upstream.closed (upstreams (fst (cleanupClientConnection ?S))) = [True, True]"
    and f2: "map ws (upstreams (fst (cleanupClientConnection ?S))) = [None, None]"
    and f3: "\<not> registered (fst (cleanupClientConnection ?S))"
    by (simp_all only: f) (simp_all add: l)
  have c: "map_of (clientConnections (fst ?H)) 8 = Some ?S"
    using b [THEN conjunct2, THEN conjunct2, THEN conjunct2, THEN conjunct2, THEN conjunct1]
    by (simp add: new_session_simps proxy_one_config)
  have d: "map_of (clientConnections (fst ?H)) 7 = None"
    using b [THEN conjunct2, THEN conjunct2, THEN conjunct2, THEN conjunct2, THEN conjunct2]
    by simp
  show ?thesis
    by (intro conjI proxy_one_registry rawPath_request_auth a e f1 f2 f3 c d)
qed
end
